theory Spec2Isabelle
  imports Complex_Main
begin

section \<open>Values shared by the whole program\<close>

text \<open>
  Addresses are Python strings.  Python's unbounded integers are \<open>int\<close>; a \<open>uint256\<close>
  returned by a contract call is a \<open>nat\<close>.  Python floats (LP amounts, token amounts) are
  IEEE doubles: a finite double is the rational it denotes, and every float operation of
  the program is the exact operation followed by rounding to the nearest double.  The
  amount of a stored position (an SQLite \<open>REAL\<close>) is such a double: the program stores
  nothing else there.
\<close>

type_synonym address = string

text \<open>The dictionaries built by \<open>get_all_lp_balances\<close> (\<open>contracts/pool.py\<close>, 157-165).\<close>

record position =
  bin_id :: int
  lp_balance :: rat
  token_x :: address
  token_y :: address
  reserve_x :: nat
  reserve_y :: nat
  distance_from_active :: int

subsection \<open>Rendering integers, as \<open>str\<close> and f-strings do\<close>

definition digit_char :: "nat \<Rightarrow> char" where
  "digit_char d = char_of (48 + d)"

fun str_nat :: "nat \<Rightarrow> string" where
  "str_nat n = (if n < 10 then [digit_char n] else str_nat (n div 10) @ [digit_char (n mod 10)])"

declare str_nat.simps [simp del]

definition str_int :: "int \<Rightarrow> string" where
  "str_int i = (if i < 0 then CHR ''-'' # str_nat (nat (- i)) else str_nat (nat i))"

subsection \<open>IEEE doubles\<close>

text \<open>\<open>int.bit_length\<close>.\<close>

fun bit_length :: "nat \<Rightarrow> nat" where
  "bit_length n = (if n = 0 then 0 else Suc (bit_length (n div 2)))"

declare bit_length.simps [simp del]

definition pow2 :: "int \<Rightarrow> rat" where
  "pow2 e = (if e \<ge> 0 then 2 ^ nat e else 1 / 2 ^ nat (- e))"

text \<open>For \<open>a > 0\<close>, the exponent \<open>e\<close> with \<open>2 ^ e \<le> a < 2 ^ (e + 1)\<close>.\<close>

definition binade :: "rat \<Rightarrow> int" where
  "binade a =
     (if a \<ge> 1 then int (bit_length (nat \<lfloor>a\<rfloor>)) - 1
      else (let j = int (bit_length (nat \<lfloor>1 / a\<rfloor>)) - 1
            in if a * pow2 j = 1 then - j else - j - 1))"

text \<open>Rounding to the nearest integer, ties to the even one.\<close>

definition round_half_even :: "rat \<Rightarrow> int" where
  "round_half_even q =
     (let f = \<lfloor>q\<rfloor>; d = q - of_int f
      in if d < 1 / 2 then f else if d > 1 / 2 then f + 1 else if even f then f else f + 1)"

text \<open>
  The double nearest to a rational, ties to even: 53 significant bits, and below the
  smallest normal exponent \<open>-1022\<close> the fixed spacing \<open>2 ^ -1074\<close> of the subnormals.  The
  values of the program stay far below the overflow threshold \<open>2 ^ 1024\<close>: its dividends
  are \<open>uint256\<close>, its divisors \<open>10 ** 8\<close> and \<open>10 ** 18\<close>.
\<close>

definition round_double :: "rat \<Rightarrow> rat" where
  "round_double q =
     (if q = 0 then 0
      else (let a = \<bar>q\<bar>;
                ulp = pow2 (max (binade a) (- 1022) - 52)
            in sgn q * of_int (round_half_even (a / ulp)) * ulp))"

text \<open>
  \<open>a / b\<close> on two integers (true division, correctly rounded), \<open>x - y\<close> and \<open>x * y\<close> on
  floats.  A decimal literal such as \<open>0.000001\<close> is \<open>round_double (1 / 1000000)\<close>, and so
  is \<open>float(d)\<close> of an exact decimal \<open>d\<close>.
\<close>

definition py_truediv :: "int \<Rightarrow> int \<Rightarrow> rat" where
  "py_truediv a b = round_double (of_int a / of_int b)"

definition fsub :: "rat \<Rightarrow> rat \<Rightarrow> rat" where
  "fsub x y = round_double (x - y)"

definition fmul :: "rat \<Rightarrow> rat \<Rightarrow> rat" where
  "fmul x y = round_double (x * y)"

section \<open>Rebalance decision engine (\<open>auto_rebalance.py\<close>)\<close>

definition DISTANCE_THRESHOLD :: int where
  "DISTANCE_THRESHOLD = 2"

text \<open>\<open>get_optimal_bin\<close>, lines 32-47.  The \<open>pool\<close> argument is not used by the source.\<close>

definition get_optimal_bin :: "'pool \<Rightarrow> int \<Rightarrow> string \<Rightarrow> int" where
  "get_optimal_bin pool active_id token_type =
     (if token_type = ''WAVAX'' then active_id + 1 else active_id - 1)"

text \<open>The f-string of line 70.\<close>

definition breach_reason :: "int \<Rightarrow> int \<Rightarrow> int \<Rightarrow> string" where
  "breach_reason b distance active_id =
     ''Position in bin '' @ str_int b @ '' is '' @ str_int distance
       @ '' bins away from active bin '' @ str_int active_id"

text \<open>The \<open>for pos in positions\<close> loop of lines 65-72.\<close>

fun breach_loop :: "position list \<Rightarrow> int \<Rightarrow> bool \<times> string" where
  "breach_loop [] active_id = (False, ''All positions are within threshold distance'')"
| "breach_loop (pos # rest) active_id =
     (let b = bin_id pos;
          distance = \<bar>b - active_id\<bar>
      in if distance \<ge> DISTANCE_THRESHOLD then (True, breach_reason b distance active_id)
         else breach_loop rest active_id)"

text \<open>\<open>should_rebalance\<close>, lines 49-72.\<close>

definition should_rebalance :: "'pool \<Rightarrow> position list \<Rightarrow> int \<Rightarrow> bool \<times> string" where
  "should_rebalance pool positions active_id =
     (if positions = [] then (False, ''No positions found'')
      else breach_loop positions active_id)"

section \<open>Configuration (\<open>utils/config.py\<close>)\<close>

text \<open>
  The address constants are the literals of the configuration file.  The source passes them
  through \<open>Web3.to_checksum_address\<close>, which changes only the case of the hexadecimal
  letters; every comparison of the program is either between two uses of the same constant
  or made after \<open>lower()\<close>.
\<close>

definition POOL_ADDRESS :: address where
  "POOL_ADDRESS = ''0x856b38bf1e2e367f747dd4d3951dda8a35f1bf60''"

definition WAVAX_ADDRESS :: address where
  "WAVAX_ADDRESS = ''0xB31f66AA3C1e785363F0875A1B74E27b85FD66c7''"

definition BTCB_ADDRESS :: address where
  "BTCB_ADDRESS = ''0x152b9d0fdc40c096757f570a51e494bd4b943e50''"

definition ROUTER_ADDRESS :: address where
  "ROUTER_ADDRESS = ''0x18556DA13313f3532c54711497A8FedAC273220E''"

definition GAS_LIMIT_BASE :: nat where
  "GAS_LIMIT_BASE = 300000"

definition GAS_LIMIT_LARGE :: nat where
  "GAS_LIMIT_LARGE = 1000000"

definition DEFAULT_BIN_SCAN_RANGE :: int where
  "DEFAULT_BIN_SCAN_RANGE = 10"

definition BTCB_DECIMALS :: nat where
  "BTCB_DECIMALS = 8"

subsection \<open>Python helpers\<close>

definition lower_char :: "char \<Rightarrow> char" where
  "lower_char c = (let n = of_char c :: nat in if 65 \<le> n \<and> n \<le> 90 then char_of (n + 32) else c)"

definition lower :: "string \<Rightarrow> string" where
  "lower s = map lower_char s"

text \<open>\<open>int(x)\<close> on a float truncates towards zero.\<close>

definition py_int :: "rat \<Rightarrow> int" where
  "py_int q = (if q < 0 then - \<lfloor>- q\<rfloor> else \<lfloor>q\<rfloor>)"

text \<open>\<open>w3.from_wei(n, 'ether')\<close>: an exact decimal.\<close>

definition from_wei_ether :: "nat \<Rightarrow> rat" where
  "from_wei_ether n = of_nat n / 10 ^ 18"

fun join :: "string \<Rightarrow> string list \<Rightarrow> string" where
  "join sep [] = []"
| "join sep [x] = x"
| "join sep (x # y # ys) = x @ sep @ join sep (y # ys)"

section \<open>Position Store (\<open>db/database.py\<close>)\<close>

text \<open>
  A row of table \<open>positions\<close>.  The table is the list of its rows in insertion order;
  the program never deletes a row, so the \<open>AUTOINCREMENT\<close> primary key \<open>id\<close> of a row is
  its place in the list, counted from 1.  The \<open>timestamp\<close> column is left out: no decision
  of the program reads it.
\<close>

record position_row =
  wallet_address :: address
  row_bin_id :: int
  amount :: rat
  row_token_x :: address
  row_token_y :: address
  pool_address :: address
  active :: bool

text \<open>A row of table \<open>operations\<close>.\<close>

record operation =
  operation_type :: string
  op_wallet_address :: address
  op_bin_id :: "int option"
  amount_x :: "rat option"
  amount_y :: "rat option"
  op_token_x :: "address option"
  op_token_y :: "address option"
  op_pool_address :: address
  tx_hash :: "string option"
  op_notes :: "string option"

record database =
  positions :: "position_row list"
  operations :: "operation list"

text \<open>\<open>add_position\<close>, lines 59-82: an unconditional \<open>INSERT\<close>; returns \<open>lastrowid\<close>.\<close>

definition add_position ::
  "database \<Rightarrow> address \<Rightarrow> int \<Rightarrow> rat \<Rightarrow> address \<Rightarrow> address \<Rightarrow> address \<Rightarrow> nat \<times> database" where
  "add_position d w b a tkx tky p =
     (Suc (length (positions d)),
      d\<lparr>positions := positions d @
          [\<lparr>wallet_address = w, row_bin_id = b, amount = a, row_token_x = tkx,
            row_token_y = tky, pool_address = p, active = True\<rparr>]\<rparr>)"

text \<open>
  \<open>update_position\<close>, lines 84-107: \<open>UPDATE ... WHERE id = ?\<close>; an id that names no row
  updates nothing.
\<close>

definition update_position :: "database \<Rightarrow> nat \<Rightarrow> rat \<Rightarrow> bool \<Rightarrow> bool \<times> database" where
  "update_position d position_id new_amount act =
     (True,
      if 1 \<le> position_id \<and> position_id \<le> length (positions d)
      then d\<lparr>positions := (positions d)[position_id - 1 :=
               ((positions d) ! (position_id - 1))\<lparr>amount := new_amount, active := act\<rparr>]\<rparr>
      else d)"

definition deactivate_position :: "database \<Rightarrow> nat \<Rightarrow> bool \<times> database" where
  "deactivate_position d position_id = update_position d position_id 0 False"

text \<open>
  \<open>get_active_positions\<close>, lines 113-143.  The optional pool filter is applied when the
  argument is truthy (given and not the empty string).  Each result carries its \<open>id\<close>;
  the query has no \<open>ORDER BY\<close>, and the rows come back in table order.
\<close>

definition get_active_positions ::
  "database \<Rightarrow> address \<Rightarrow> address option \<Rightarrow> (nat \<times> position_row) list" where
  "get_active_positions d w p =
     filter (\<lambda>(i, r). wallet_address r = w \<and> active r \<and>
               (case p of None \<Rightarrow> True | Some pa \<Rightarrow> pa = [] \<or> pool_address r = pa))
            (enumerate 1 (positions d))"

text \<open>\<open>get_position_by_bin\<close>, lines 145-158: \<open>fetchone\<close> gives the first matching row.\<close>

definition get_position_by_bin ::
  "database \<Rightarrow> address \<Rightarrow> int \<Rightarrow> address \<Rightarrow> (nat \<times> position_row) option" where
  "get_position_by_bin d w b p =
     find (\<lambda>(i, r). wallet_address r = w \<and> row_bin_id r = b \<and> pool_address r = p \<and> active r)
          (enumerate 1 (positions d))"

text \<open>\<open>record_operation\<close>, lines 160-190: appends to the operation log.\<close>

definition record_operation :: "database \<Rightarrow> operation \<Rightarrow> nat \<times> database" where
  "record_operation d op = (Suc (length (operations d)), d\<lparr>operations := operations d @ [op]\<rparr>)"

section \<open>The chain, as the program sees it\<close>

text \<open>The transactions the program builds, with the arguments it passes.\<close>

datatype tx =
    Approve address address int
  | SetApprovalForAll address bool
  | AddLiquidity address address "int list" "int list" "int list" int int nat address
  | RemoveLiquidity address address address "int list" "int list" int int nat

text \<open>
  The collaborators the code calls, over an arbitrary type \<open>'c\<close> of chain states.  A read
  answers \<open>None\<close> when the call raises.  \<open>transact c sender t gas\<close> stands for building,
  signing and sending \<open>t\<close> and waiting for its receipt: \<open>None\<close> when any of these raises,
  else the receipt's status and the transaction hash in hexadecimal, together with the
  chain state afterwards.  Between two transactions of the program the chain state stays
  as it is.  \<open>address_of_key\<close> is \<open>account.from_key(private_key).address\<close>; \<open>to_wei\<close> is
  the library's \<open>w3.to_wei(amount, 'ether')\<close> on a float, \<open>None\<close> when it raises;
  \<open>str_float\<close> is the rendering of a float inside an f-string.
\<close>

record 'c env =
  getActiveId :: "'c \<Rightarrow> int option"
  lp_balanceOf :: "'c \<Rightarrow> address \<Rightarrow> int \<Rightarrow> nat option"
  getBin :: "'c \<Rightarrow> int \<Rightarrow> (nat \<times> nat) option"
  token_balanceOf :: "'c \<Rightarrow> address \<Rightarrow> address \<Rightarrow> nat option"
  allowance :: "'c \<Rightarrow> address \<Rightarrow> address \<Rightarrow> address \<Rightarrow> nat option"
  latest_timestamp :: "'c \<Rightarrow> nat option"
  transact :: "'c \<Rightarrow> address \<Rightarrow> tx \<Rightarrow> nat \<Rightarrow> (nat \<times> string) option \<times> 'c"
  address_of_key :: "string \<Rightarrow> address option"
  to_wei :: "rat \<Rightarrow> int option"
  str_float :: "rat \<Rightarrow> string"

text \<open>Every call made to the chain is written to a trace, oldest first.\<close>

datatype call =
    CallGetActiveId
  | CallBalanceOf address int
  | CallGetBin int
  | CallTokenBalanceOf address address
  | CallAllowance address address address
  | CallGetBlock
  | CallTransact address tx

record 'c world =
  chain :: 'c
  db :: database
  trace :: "call list"

definition log_call :: "call \<Rightarrow> 'c world \<Rightarrow> 'c world" where
  "log_call k s = s\<lparr>trace := trace s @ [k]\<rparr>"

text \<open>The attributes of a \<open>LiquidityPool\<close> object cached by its constructor.\<close>

record pool =
  self_token_x :: address
  self_token_y :: address
  is_wavax_x :: bool

section \<open>Pool gateway and reconciliation (\<open>contracts/pool.py\<close>)\<close>

definition get_active_bin :: "'c env \<Rightarrow> 'c world \<Rightarrow> int option \<times> 'c world" where
  "get_active_bin E s = (getActiveId E (chain s), log_call CallGetActiveId s)"

text \<open>\<open>get_balance\<close>, lines 108-119.\<close>

definition get_balance :: "'c env \<Rightarrow> address \<Rightarrow> address \<Rightarrow> 'c world \<Rightarrow> rat option \<times> 'c world" where
  "get_balance E token_address w s =
     (case token_balanceOf E (chain s) token_address w of
        None \<Rightarrow> None
      | Some balance \<Rightarrow>
          if lower token_address = lower WAVAX_ADDRESS then Some (from_wei_ether balance)
          else if lower token_address = lower BTCB_ADDRESS
            then Some (py_truediv (int balance) (10 ^ BTCB_DECIMALS))
          else Some (of_nat balance),
      log_call (CallTokenBalanceOf token_address w) s)"

text \<open>\<open>get_lp_balance\<close>, lines 121-124.\<close>

definition get_lp_balance :: "'c env \<Rightarrow> int \<Rightarrow> address \<Rightarrow> 'c world \<Rightarrow> rat option \<times> 'c world" where
  "get_lp_balance E b w s =
     (case lp_balanceOf E (chain s) w b of
        None \<Rightarrow> None
      | Some balance \<Rightarrow> Some (py_truediv (int balance) (10 ^ 18)),
      log_call (CallBalanceOf w b) s)"

text \<open>
  The body of the loop over the stored positions, lines 149-175; \<open>pos\<close> is a stored
  position with its id.  An exception of either read leaves the loop body at once.
\<close>

definition db_step ::
  "'c env \<Rightarrow> pool \<Rightarrow> address \<Rightarrow> int \<Rightarrow> nat \<times> position_row \<Rightarrow>
   'c world \<times> position list \<Rightarrow> 'c world \<times> position list" where
  "db_step E pl w active_id pos st =
     (let s = fst st; ps = snd st;
          b = row_bin_id (snd pos);
          s1 = log_call (CallBalanceOf w b) s
      in case lp_balanceOf E (chain s) w b of
           None \<Rightarrow> (s1, ps)
         | Some balance \<Rightarrow>
             if balance > 0 then
               (let s2 = log_call (CallGetBin b) s1
                in case getBin E (chain s) b of
                     None \<Rightarrow> (s2, ps)
                   | Some (bin_x, bin_y) \<Rightarrow>
                       (let ps' = ps @
                              [\<lparr>bin_id = b, lp_balance = py_truediv (int balance) (10 ^ 18),
                                token_x = self_token_x pl, token_y = self_token_y pl,
                                reserve_x = bin_x, reserve_y = bin_y,
                                distance_from_active = b - active_id\<rparr>]
                        in if \<bar>fsub (amount (snd pos)) (py_truediv (int balance) (10 ^ 18))\<bar>
                                > round_double (1 / 1000000)
                           then (s2\<lparr>db := snd (update_position (db s2) (fst pos)
                                                  (py_truediv (int balance) (10 ^ 18)) True)\<rparr>, ps')
                           else (s2, ps')))
             else (s1\<lparr>db := snd (deactivate_position (db s1) (fst pos))\<rparr>, ps))"

fun db_loop ::
  "'c env \<Rightarrow> pool \<Rightarrow> address \<Rightarrow> int \<Rightarrow> (nat \<times> position_row) list \<Rightarrow>
   'c world \<times> position list \<Rightarrow> 'c world \<times> position list" where
  "db_loop E pl w active_id [] st = st"
| "db_loop E pl w active_id (pos # rest) st =
     db_loop E pl w active_id rest (db_step E pl w active_id pos st)"

text \<open>The body of the loop over the scanned bins, lines 188-215.\<close>

definition scan_step ::
  "'c env \<Rightarrow> pool \<Rightarrow> address \<Rightarrow> int \<Rightarrow> bool \<Rightarrow> int \<Rightarrow>
   'c world \<times> position list \<Rightarrow> 'c world \<times> position list" where
  "scan_step E pl w active_id use_db_first b st =
     (let s = fst st; ps = snd st;
          s1 = log_call (CallBalanceOf w b) s
      in case lp_balanceOf E (chain s) w b of
           None \<Rightarrow> (s1, ps)
         | Some balance \<Rightarrow>
             if balance > 0 then
               (let s2 = log_call (CallGetBin b) s1
                in case getBin E (chain s) b of
                     None \<Rightarrow> (s2, ps)
                   | Some (bin_x, bin_y) \<Rightarrow>
                       (let ps' = ps @
                              [\<lparr>bin_id = b, lp_balance = py_truediv (int balance) (10 ^ 18),
                                token_x = self_token_x pl, token_y = self_token_y pl,
                                reserve_x = bin_x, reserve_y = bin_y,
                                distance_from_active = b - active_id\<rparr>]
                        in if use_db_first then
                             (case get_position_by_bin (db s2) w b POOL_ADDRESS of
                                None \<Rightarrow>
                                  (s2\<lparr>db := snd (add_position (db s2) w b
                                                  (py_truediv (int balance) (10 ^ 18))
                                                  (self_token_x pl) (self_token_y pl)
                                                  POOL_ADDRESS)\<rparr>, ps')
                              | Some pos \<Rightarrow> (s2, ps'))
                           else (s2, ps')))
             else (s1, ps))"

fun scan_loop ::
  "'c env \<Rightarrow> pool \<Rightarrow> address \<Rightarrow> int \<Rightarrow> bool \<Rightarrow> int list \<Rightarrow>
   'c world \<times> position list \<Rightarrow> 'c world \<times> position list" where
  "scan_loop E pl w active_id use_db_first [] st = st"
| "scan_loop E pl w active_id use_db_first (b # rest) st =
     scan_loop E pl w active_id use_db_first rest (scan_step E pl w active_id use_db_first b st)"

text \<open>
  The scan of lines 181-217, entered with the positions collected so far.  The result is
  \<open>None\<close> when \<open>get_active_bin\<close> raises: nothing in \<open>get_all_lp_balances\<close> catches that.
\<close>

definition scan_bins ::
  "'c env \<Rightarrow> pool \<Rightarrow> address \<Rightarrow> int \<Rightarrow> bool \<Rightarrow> position list \<Rightarrow> 'c world \<Rightarrow>
   position list option \<times> 'c world" where
  "scan_bins E pl w scan_range use_db_first ps s =
     (case get_active_bin E s of
        (None, s1) \<Rightarrow> (None, s1)
      | (Some active_id, s1) \<Rightarrow>
          (let start_bin = max 0 (active_id - scan_range);
               end_bin = active_id + scan_range;
               r = scan_loop E pl w active_id use_db_first [start_bin..end_bin] (s1, ps)
           in (Some (snd r), fst r)))"

text \<open>\<open>get_all_lp_balances\<close>, lines 126-217.\<close>

definition get_all_lp_balances ::
  "'c env \<Rightarrow> pool \<Rightarrow> address \<Rightarrow> int \<Rightarrow> bool \<Rightarrow> 'c world \<Rightarrow>
   position list option \<times> 'c world" where
  "get_all_lp_balances E pl w scan_range use_db_first s =
     (if use_db_first then
        (let db_positions = get_active_positions (db s) w (Some POOL_ADDRESS)
         in if db_positions \<noteq> [] then
              (case get_active_bin E s of
                 (None, s1) \<Rightarrow> (None, s1)
               | (Some active_id, s1) \<Rightarrow>
                   (let r = db_loop E pl w active_id db_positions (s1, [])
                    in if snd r \<noteq> [] then (Some (snd r), fst r)
                       else scan_bins E pl w scan_range use_db_first (snd r) (fst r)))
            else scan_bins E pl w scan_range use_db_first [] s)
      else scan_bins E pl w scan_range use_db_first [] s)"

text \<open>\<open>get_block('latest').timestamp + 300\<close>, the deadline of every router call.\<close>

definition get_deadline :: "'c env \<Rightarrow> 'c world \<Rightarrow> nat option \<times> 'c world" where
  "get_deadline E s =
     (case latest_timestamp E (chain s) of None \<Rightarrow> None | Some t \<Rightarrow> Some (t + 300),
      log_call CallGetBlock s)"

text \<open>
  Build, sign, send and wait (\<open>build_transaction\<close>, \<open>sign_transaction\<close>,
  \<open>send_raw_transaction\<close>, \<open>wait_for_transaction_receipt\<close>).
\<close>

definition send_tx ::
  "'c env \<Rightarrow> address \<Rightarrow> tx \<Rightarrow> nat \<Rightarrow> 'c world \<Rightarrow> (nat \<times> string) option \<times> 'c world" where
  "send_tx E sender t gas s =
     (fst (transact E (chain s) sender t gas),
      (log_call (CallTransact sender t) s)\<lparr>chain := snd (transact E (chain s) sender t gas)\<rparr>)"

text \<open>\<open>approve_token\<close>, lines 219-277.  Every exception is caught and answered \<open>False\<close>.\<close>

definition approve_token ::
  "'c env \<Rightarrow> address \<Rightarrow> address \<Rightarrow> rat \<Rightarrow> string \<Rightarrow> 'c world \<Rightarrow> bool \<times> 'c world" where
  "approve_token E token_address spender_address amt private_key s =
     (case address_of_key E private_key of
        None \<Rightarrow> (False, s)
      | Some account_address \<Rightarrow>
          (case (if lower token_address = lower WAVAX_ADDRESS then to_wei E amt
                 else if lower token_address = lower BTCB_ADDRESS
                   then Some (py_int (fmul amt (10 ^ BTCB_DECIMALS)))
                 else Some (py_int (fmul amt (10 ^ 18)))) of
             None \<Rightarrow> (False, s)
           | Some amount_wei \<Rightarrow>
               (let s1 = log_call (CallAllowance token_address account_address spender_address) s
                in case allowance E (chain s) token_address account_address spender_address of
                     None \<Rightarrow> (False, s1)
                   | Some current_allowance \<Rightarrow>
                       if int current_allowance \<ge> amount_wei then (True, s1)
                       else (case send_tx E account_address
                                    (Approve token_address spender_address amount_wei)
                                    GAS_LIMIT_BASE s1 of
                               (None, s2) \<Rightarrow> (False, s2)
                             | (Some (status, h), s2) \<Rightarrow> (status = 1, s2)))))"

text \<open>\<open>approve_lp_tokens\<close>, lines 279-307.\<close>

definition approve_lp_tokens ::
  "'c env \<Rightarrow> address \<Rightarrow> string \<Rightarrow> 'c world \<Rightarrow> bool \<times> 'c world" where
  "approve_lp_tokens E spender_address private_key s =
     (case address_of_key E private_key of
        None \<Rightarrow> (False, s)
      | Some account_address \<Rightarrow>
          (case send_tx E account_address (SetApprovalForAll spender_address True)
                  GAS_LIMIT_BASE s of
             (None, s1) \<Rightarrow> (False, s1)
           | (Some (status, h), s1) \<Rightarrow> (status = 1, s1)))"

text \<open>
  The part of \<open>add_liquidity\<close> after the approvals, lines 348-418: the router call and the
  bookkeeping of a successful receipt.
\<close>

definition add_liquidity_send ::
  "'c env \<Rightarrow> pool \<Rightarrow> address \<Rightarrow> int \<Rightarrow> rat \<Rightarrow> rat \<Rightarrow> int \<Rightarrow> int \<Rightarrow> 'c world \<Rightarrow> bool \<times> 'c world" where
  "add_liquidity_send E pl account_address b avax_amount btc_amount avax_wei btc_wei s =
     (let amount_x = (if is_wavax_x pl then avax_wei else btc_wei);
          amount_y = (if is_wavax_x pl then btc_wei else avax_wei)
      in case get_deadline E s of
           (None, s1) \<Rightarrow> (False, s1)
         | (Some deadline, s1) \<Rightarrow>
             (case send_tx E account_address
                     (AddLiquidity (self_token_x pl) (self_token_y pl) [b] [amount_x] [amount_y]
                        0 0 deadline account_address)
                     GAS_LIMIT_LARGE s1 of
                (None, s2) \<Rightarrow> (False, s2)
              | (Some (status, h), s2) \<Rightarrow>
                  if status = 1 then
                    (let s3 = s2\<lparr>db := snd (record_operation (db s2)
                                 \<lparr>operation_type = ''add'',
                                  op_wallet_address = account_address,
                                  op_bin_id = Some b,
                                  amount_x = Some (if is_wavax_x pl then avax_amount else btc_amount),
                                  amount_y = Some (if is_wavax_x pl then btc_amount else avax_amount),
                                  op_token_x = Some (self_token_x pl),
                                  op_token_y = Some (self_token_y pl),
                                  op_pool_address = POOL_ADDRESS,
                                  tx_hash = Some h, op_notes = None\<rparr>)\<rparr>
                     in case get_lp_balance E b account_address s3 of
                          (None, s4) \<Rightarrow> (False, s4)
                        | (Some lp, s4) \<Rightarrow>
                            (case get_position_by_bin (db s4) account_address b POOL_ADDRESS of
                               Some pos \<Rightarrow>
                                 (True, s4\<lparr>db := snd (update_position (db s4) (fst pos) lp True)\<rparr>)
                             | None \<Rightarrow>
                                 (True, s4\<lparr>db := snd (add_position (db s4) account_address b lp
                                                 (self_token_x pl) (self_token_y pl)
                                                 POOL_ADDRESS)\<rparr>)))
                  else (False, s2)))"

text \<open>\<open>add_liquidity\<close>, lines 309-423.\<close>

definition add_liquidity ::
  "'c env \<Rightarrow> pool \<Rightarrow> int \<Rightarrow> rat \<Rightarrow> rat \<Rightarrow> string \<Rightarrow> 'c world \<Rightarrow> bool \<times> 'c world" where
  "add_liquidity E pl b avax_amount btc_amount private_key s =
     (case address_of_key E private_key of
        None \<Rightarrow> (False, s)
      | Some account_address \<Rightarrow>
          (case (if avax_amount > 0 then to_wei E avax_amount else Some 0) of
             None \<Rightarrow> (False, s)
           | Some avax_wei \<Rightarrow>
               (let ra = (if avax_amount > 0
                          then approve_token E WAVAX_ADDRESS ROUTER_ADDRESS avax_amount
                                 private_key s
                          else (True, s))
                in if \<not> fst ra then (False, snd ra)
                   else
                     (let btc_wei = (if btc_amount > 0
                                     then py_int (fmul btc_amount (10 ^ BTCB_DECIMALS))
                                     else 0);
                          rb = (if btc_amount > 0
                                then approve_token E BTCB_ADDRESS ROUTER_ADDRESS btc_amount
                                       private_key (snd ra)
                                else (True, snd ra))
                      in if \<not> fst rb then (False, snd rb)
                         else add_liquidity_send E pl account_address b avax_amount btc_amount
                                avax_wei btc_wei (snd rb)))))"

text \<open>
  The part of \<open>remove_liquidity\<close> from the approval on, lines 448-516, with the amount to
  remove already settled.
\<close>

definition remove_liquidity_send ::
  "'c env \<Rightarrow> pool \<Rightarrow> address \<Rightarrow> int \<Rightarrow> rat \<Rightarrow> string \<Rightarrow> 'c world \<Rightarrow> bool \<times> 'c world" where
  "remove_liquidity_send E pl account_address b liquidity_amount private_key s =
     (let liquidity_wei = py_int (fmul liquidity_amount (10 ^ 18))
      in case approve_lp_tokens E ROUTER_ADDRESS private_key s of
           (False, s1) \<Rightarrow> (False, s1)
         | (True, s1) \<Rightarrow>
             (case get_deadline E s1 of
                (None, s2) \<Rightarrow> (False, s2)
              | (Some deadline, s2) \<Rightarrow>
                  (case send_tx E account_address
                          (RemoveLiquidity (self_token_x pl) (self_token_y pl) account_address
                             [b] [liquidity_wei] 0 0 deadline)
                          GAS_LIMIT_LARGE s2 of
                     (None, s3) \<Rightarrow> (False, s3)
                   | (Some (status, h), s3) \<Rightarrow>
                       if status = 1 then
                         (let s4 = s3\<lparr>db := snd (record_operation (db s3)
                                      \<lparr>operation_type = ''remove'',
                                       op_wallet_address = account_address,
                                       op_bin_id = Some b,
                                       amount_x = None, amount_y = None,
                                       op_token_x = None, op_token_y = None,
                                       op_pool_address = POOL_ADDRESS,
                                       tx_hash = Some h,
                                       op_notes = Some (''Removed '' @ str_float E liquidity_amount
                                                          @ '' LP tokens'')\<rparr>)\<rparr>
                          in case get_lp_balance E b account_address s4 of
                               (None, s5) \<Rightarrow> (False, s5)
                             | (Some current_lp_balance, s5) \<Rightarrow>
                                 (case get_position_by_bin (db s5) account_address b
                                         POOL_ADDRESS of
                                    Some pos \<Rightarrow>
                                      if current_lp_balance \<le> 0
                                      then (True, s5\<lparr>db := snd (deactivate_position (db s5)
                                                                 (fst pos))\<rparr>)
                                      else (True, s5\<lparr>db := snd (update_position (db s5) (fst pos)
                                                                 current_lp_balance True)\<rparr>)
                                  | None \<Rightarrow> (True, s5)))
                       else (False, s3))))"

text \<open>\<open>remove_liquidity\<close>, lines 425-521.\<close>

definition remove_liquidity ::
  "'c env \<Rightarrow> pool \<Rightarrow> int \<Rightarrow> rat \<Rightarrow> string \<Rightarrow> 'c world \<Rightarrow> bool \<times> 'c world" where
  "remove_liquidity E pl b liquidity_amount private_key s =
     (case address_of_key E private_key of
        None \<Rightarrow> (False, s)
      | Some account_address \<Rightarrow>
          if liquidity_amount \<le> 0 then
            (case get_lp_balance E b account_address s of
               (None, s1) \<Rightarrow> (False, s1)
             | (Some la, s1) \<Rightarrow>
                 if la \<le> 0 then (False, s1)
                 else remove_liquidity_send E pl account_address b la private_key s1)
          else remove_liquidity_send E pl account_address b liquidity_amount private_key s)"

text \<open>The loop of lines 605-608 that marks the removed positions inactive.\<close>

fun deactivate_loop :: "address \<Rightarrow> position list \<Rightarrow> database \<Rightarrow> database" where
  "deactivate_loop account_address [] d = d"
| "deactivate_loop account_address (pos # rest) d =
     deactivate_loop account_address rest
       (case get_position_by_bin d account_address (bin_id pos) POOL_ADDRESS of
          None \<Rightarrow> d
        | Some db_pos \<Rightarrow> snd (deactivate_position d (fst db_pos)))"

text \<open>\<open>remove_all_liquidity\<close>, lines 523-618.\<close>

definition remove_all_liquidity ::
  "'c env \<Rightarrow> pool \<Rightarrow> string \<Rightarrow> int \<Rightarrow> 'c world \<Rightarrow> bool \<times> 'c world" where
  "remove_all_liquidity E pl private_key scan_range s =
     (case address_of_key E private_key of
        None \<Rightarrow> (False, s)
      | Some account_address \<Rightarrow>
          (case get_all_lp_balances E pl account_address scan_range True s of
             (None, s1) \<Rightarrow> (False, s1)
           | (Some ps, s1) \<Rightarrow>
               if ps = [] then (False, s1)
               else
                 (case approve_lp_tokens E ROUTER_ADDRESS private_key s1 of
                    (False, s2) \<Rightarrow> (False, s2)
                  | (True, s2) \<Rightarrow>
                      (let bin_ids = map bin_id ps;
                           amounts = map (\<lambda>pos. py_int (fmul (lp_balance pos) (10 ^ 18))) ps
                       in case get_deadline E s2 of
                            (None, s3) \<Rightarrow> (False, s3)
                          | (Some deadline, s3) \<Rightarrow>
                              (case send_tx E account_address
                                      (RemoveLiquidity (self_token_x pl) (self_token_y pl)
                                         account_address bin_ids amounts 0 0 deadline)
                                      GAS_LIMIT_LARGE s3 of
                                 (None, s4) \<Rightarrow> (False, s4)
                               | (Some (status, h), s4) \<Rightarrow>
                                   if status = 1 then
                                     (let d1 = snd (record_operation (db s4)
                                                \<lparr>operation_type = ''remove_all'',
                                                 op_wallet_address = account_address,
                                                 op_bin_id = None,
                                                 amount_x = None, amount_y = None,
                                                 op_token_x = None, op_token_y = None,
                                                 op_pool_address = POOL_ADDRESS,
                                                 tx_hash = Some h,
                                                 op_notes = Some (''Removed liquidity from bins: ''
                                                   @ join '', '' (map (\<lambda>pos. str_int (bin_id pos)) ps))\<rparr>)
                                      in (True, s4\<lparr>db := deactivate_loop account_address ps d1\<rparr>))
                                   else (False, s4))))))"

section \<open>Rebalance executor (\<open>auto_rebalance.py\<close>)\<close>

text \<open>
  \<open>rebalance_liquidity\<close>, lines 158-242.  The result is \<open>None\<close> when an exception leaves the
  function: the balance reads of steps 2 and 4 are not guarded.  \<open>get_wallet_address\<close>
  answers Python's \<open>None\<close> for a key that \<open>from_key\<close> rejects, and \<open>get_balance\<close> raises on
  that.
\<close>

definition rebalance_liquidity ::
  "'c env \<Rightarrow> pool \<Rightarrow> string \<Rightarrow> int \<Rightarrow> 'c world \<Rightarrow> bool option \<times> 'c world" where
  "rebalance_liquidity E pl private_key active_id s =
     (let r1 = remove_all_liquidity E pl private_key DEFAULT_BIN_SCAN_RANGE s
      in if \<not> fst r1 then (Some False, snd r1)
         else
           (case address_of_key E private_key of
              None \<Rightarrow> (None, snd r1)
            | Some account_address \<Rightarrow>
                (case get_balance E WAVAX_ADDRESS account_address (snd r1) of
                   (None, s2) \<Rightarrow> (None, s2)
                 | (Some avax_decimal, s2) \<Rightarrow>
                     (case get_balance E BTCB_ADDRESS account_address s2 of
                        (None, s3) \<Rightarrow> (None, s3)
                      | (Some btc_quotient, s3) \<Rightarrow>
                          (let avax_balance = round_double avax_decimal;
                               btc_balance = round_double btc_quotient;
                               avax_to_add =
                                 max 0 (fsub avax_balance (round_double (1 / 1000000)));
                               btc_to_add =
                                 max 0 (fsub btc_balance (round_double (1 / 10000000000)));
                               wavax_bin = get_optimal_bin pl active_id ''WAVAX'';
                               btc_bin = get_optimal_bin pl active_id ''BTC.b'';
                               ra = (if avax_to_add > round_double (1 / 100)
                                     then add_liquidity E pl wavax_bin avax_to_add 0 private_key s3
                                     else (False, s3));
                               rb = (if btc_to_add > round_double (1 / 10000)
                                     then add_liquidity E pl btc_bin 0 btc_to_add private_key
                                            (snd ra)
                                     else (False, snd ra));
                               success_count = (if fst ra then 1 else 0) + (if fst rb then 1 else (0::nat))
                           in if success_count > 0 then
                                (case get_balance E WAVAX_ADDRESS account_address (snd rb) of
                                   (None, s4) \<Rightarrow> (None, s4)
                                 | (Some avax_remaining, s4) \<Rightarrow>
                                     (case get_balance E BTCB_ADDRESS account_address s4 of
                                        (None, s5) \<Rightarrow> (None, s5)
                                      | (Some btc_remaining, s5) \<Rightarrow> (Some True, s5)))
                              else (Some False, snd rb))))))"

section \<open>Vocabulary of the properties\<close>

text \<open>The key of a stored position: wallet, pool and bin.\<close>

definition row_key :: "position_row \<Rightarrow> address \<times> address \<times> int" where
  "row_key r = (wallet_address r, pool_address r, row_bin_id r)"

text \<open>The store invariant: no two active rows share a key.\<close>

definition store_inv :: "database \<Rightarrow> bool" where
  "store_inv d = distinct (map row_key (filter active (positions d)))"

text \<open>A row that keeps the key of another and is active only if the other is.\<close>

definition row_le :: "position_row \<Rightarrow> position_row \<Rightarrow> bool" where
  "row_le r' r = (row_key r' = row_key r \<and> (active r' \<longrightarrow> active r))"

text \<open>The rows that \<open>get_active_positions\<close> selects for a wallet in the pool.\<close>

definition tracked :: "address \<Rightarrow> position_row \<Rightarrow> bool" where
  "tracked w r = (wallet_address r = w \<and> active r \<and> pool_address r = POOL_ADDRESS)"

definition active_bins :: "database \<Rightarrow> address \<Rightarrow> int list" where
  "active_bins d w = map row_bin_id (filter (tracked w) (positions d))"

text \<open>
  What the two live reads of a bin give: the position to report, if the balance is positive
  and both reads answer, else nothing.
\<close>

definition live_position :: "'c env \<Rightarrow> pool \<Rightarrow> 'c \<Rightarrow> address \<Rightarrow> int \<Rightarrow> int \<Rightarrow> position list" where
  "live_position E pl c w active_id b =
     (case lp_balanceOf E c w b of
        None \<Rightarrow> []
      | Some balance \<Rightarrow>
          if balance > 0 then
            (case getBin E c b of
               None \<Rightarrow> []
             | Some (bin_x, bin_y) \<Rightarrow>
                 [\<lparr>bin_id = b, lp_balance = py_truediv (int balance) (10 ^ 18),
                   token_x = self_token_x pl, token_y = self_token_y pl,
                   reserve_x = bin_x, reserve_y = bin_y,
                   distance_from_active = b - active_id\<rparr>])
          else [])"

text \<open>The row a scan stores for a bin it reports: none when the bin reports nothing.\<close>

definition scanned_rows :: "'c env \<Rightarrow> pool \<Rightarrow> 'c \<Rightarrow> address \<Rightarrow> int \<Rightarrow> position_row list" where
  "scanned_rows E pl c w b =
     map (\<lambda>p. \<lparr>wallet_address = w, row_bin_id = b, amount = lp_balance p,
                row_token_x = self_token_x pl, row_token_y = self_token_y pl,
                pool_address = POOL_ADDRESS, active = True\<rparr>)
         (live_position E pl c w 0 b)"

text \<open>The stored row after its check against the chain.\<close>

definition checked_row :: "'c env \<Rightarrow> 'c \<Rightarrow> address \<Rightarrow> position_row \<Rightarrow> position_row" where
  "checked_row E c w r =
     (case lp_balanceOf E c w (row_bin_id r) of
        None \<Rightarrow> r
      | Some balance \<Rightarrow>
          if balance > 0 then
            (case getBin E c (row_bin_id r) of
               None \<Rightarrow> r
             | Some res \<Rightarrow>
                 if \<bar>fsub (amount r) (py_truediv (int balance) (10 ^ 18))\<bar>
                      > round_double (1 / 1000000)
                 then r\<lparr>amount := py_truediv (int balance) (10 ^ 18), active := True\<rparr>
                 else r)
          else r\<lparr>amount := 0, active := False\<rparr>)"

text \<open>
  The first half of \<open>get_all_lp_balances\<close> when the store has positions: the read of
  the active bin and the loop over the stored positions.
\<close>

definition cache_pass ::
  "'c env \<Rightarrow> pool \<Rightarrow> address \<Rightarrow> int \<Rightarrow> 'c world \<Rightarrow> 'c world \<times> position list" where
  "cache_pass E pl w A s =
     db_loop E pl w A (get_active_positions (db s) w (Some POOL_ADDRESS))
       (log_call CallGetActiveId s, [])"

text \<open>The balance checks and the transactions of a trace, in order.\<close>

fun balance_checks :: "call list \<Rightarrow> (address \<times> int) list" where
  "balance_checks [] = []"
| "balance_checks (CallBalanceOf w b # rest) = (w, b) # balance_checks rest"
| "balance_checks (k # rest) = balance_checks rest"

fun sent :: "call list \<Rightarrow> tx list" where
  "sent [] = []"
| "sent (CallTransact a t # rest) = t # sent rest"
| "sent (k # rest) = sent rest"

fun is_add_liquidity :: "tx \<Rightarrow> bool" where
  "is_add_liquidity (AddLiquidity tkx tky bins ax ay mx my deadline recipient) = True"
| "is_add_liquidity t = False"

subsection \<open>A chain that never changes, for concrete runs\<close>

text \<open>
  Active bin \<open>a\<close>, LP balance \<open>bal b\<close> and reserves \<open>res b\<close> of bin \<open>b\<close>, and receipt
  \<open>rcpt t\<close> for transaction \<open>t\<close>; the wallet holds no tokens and has granted no allowance,
  and \<open>to_wei\<close> never raises.
\<close>

definition static_chain ::
  "int option \<Rightarrow> (int \<Rightarrow> nat option) \<Rightarrow> (int \<Rightarrow> (nat \<times> nat) option) \<Rightarrow>
   (tx \<Rightarrow> (nat \<times> string) option) \<Rightarrow> unit env" where
  "static_chain a bal res rcpt =
     \<lparr>getActiveId = (\<lambda>c. a),
      lp_balanceOf = (\<lambda>c w b. bal b),
      getBin = (\<lambda>c b. res b),
      token_balanceOf = (\<lambda>c t w. Some 0),
      allowance = (\<lambda>c t owner spender. Some 0),
      latest_timestamp = (\<lambda>c. Some 1000),
      transact = (\<lambda>c sender t gas. (rcpt t, c)),
      address_of_key = (\<lambda>k. if k = [] then None else Some (''0xW'' @ k)),
      to_wei = (\<lambda>a. Some (py_int (a * 10 ^ 18))),
      str_float = (\<lambda>q. ''?'')\<rparr>"

definition demo_balances :: "int \<Rightarrow> nat option" where
  "demo_balances b = (if b = 100 then Some 5000000000000000000 else Some 0)"

definition demo_reserves :: "int \<Rightarrow> (nat \<times> nat) option" where
  "demo_reserves b = Some (7, 9)"

definition zero_balances :: "int \<Rightarrow> nat option" where
  "zero_balances b = Some 0"

definition failing_reserves :: "int \<Rightarrow> (nat \<times> nat) option" where
  "failing_reserves b = None"

definition no_receipt :: "tx \<Rightarrow> (nat \<times> string) option" where
  "no_receipt t = None"

text \<open>Receipts of a chain on which every approval is mined and every other call reverts.\<close>

fun approvals_only :: "tx \<Rightarrow> (nat \<times> string) option" where
  "approvals_only (Approve tk spender a) = Some (1, ''0xaa'')"
| "approvals_only (SetApprovalForAll spender ok) = Some (1, ''0xaa'')"
| "approvals_only t = Some (0, ''0xbb'')"

definition far_balances :: "int \<Rightarrow> nat option" where
  "far_balances b = (if b = 150 then Some 5000000000000000000 else Some 0)"


definition demo_pool :: pool where
  "demo_pool = \<lparr>self_token_x = WAVAX_ADDRESS, self_token_y = BTCB_ADDRESS, is_wavax_x = True\<rparr>"

definition empty_world :: "unit world" where
  "empty_world = \<lparr>chain = (), db = \<lparr>positions = [], operations = []\<rparr>, trace = []\<rparr>"

definition demo_row :: "int \<Rightarrow> rat \<Rightarrow> position_row" where
  "demo_row b a =
     \<lparr>wallet_address = ''0xWk'', row_bin_id = b, amount = a, row_token_x = WAVAX_ADDRESS,
      row_token_y = BTCB_ADDRESS, pool_address = POOL_ADDRESS, active = True\<rparr>"

definition world_with :: "position_row list \<Rightarrow> unit world" where
  "world_with rows = \<lparr>chain = (), db = \<lparr>positions = rows, operations = []\<rparr>, trace = []\<rparr>"

section \<open>Doubles at the values of the examples\<close>

lemma floor_numeral_div: "\<lfloor>numeral a / numeral b :: rat\<rfloor> = numeral a div numeral b"
  using floor_divide_of_int_eq [of "numeral a" "numeral b", where ?'a = rat] by simp

lemmas binade_eval = binade_def pow2_def bit_length.simps floor_numeral_div Let_def

lemmas round_eval = round_double_def pow2_def round_half_even_def floor_numeral_div Let_def

lemma round_double_minus: "round_double (- q) = - round_double q"
  by (simp add: round_double_def Let_def)

lemma binade_one: "binade 1 = 0"
  by (simp add: binade_def bit_length.simps)

lemma round_double_one: "round_double 1 = 1"
  by (simp add: round_eval binade_one)

text \<open>The double of the literal \<open>0.1\<close> is \<open>0x1.999999999999ap-4\<close>.\<close>

lemma binade_tenth: "binade (1 / 10) = - 4"
  by (simp add: binade_eval)

lemma round_double_tenth: "round_double (1 / 10) = 3602879701896397 / 36028797018963968"
  by (simp add: round_eval binade_tenth)

text \<open>The tolerance \<open>0.000001\<close> of line 168 is \<open>0x1.0c6f7a0b5ed8dp-20\<close>, a little under \<open>1e-6\<close>.\<close>

lemma binade_tolerance: "binade (1 / 1000000) = - 20"
  by (simp add: binade_eval)

lemma tolerance_double:
  "round_double (1 / 1000000) = 4722366482869645 / 4722366482869645213696"
  by (simp add: round_eval binade_tolerance)

lemma tolerance_below: "round_double (1 / 1000000) < 1 / 1000000"
  by (simp add: tolerance_double)

text \<open>A live balance of \<open>5 * 10 ** 18\<close> against a stored amount of 1.\<close>

lemma binade_five: "binade 5 = 2"
  by (simp add: binade_eval)

lemma lp_five: "py_truediv 5000000000000000000 1000000000000000000 = 5"
  by (simp add: py_truediv_def round_eval binade_five)

lemma binade_four: "binade 4 = 2"
  by (simp add: binade_def bit_length.simps)

lemma fsub_one_five: "fsub 1 5 = - 4"
  by (simp add: fsub_def round_double_def binade_four pow2_def round_half_even_def)

lemma five_differs_from_one:
  "round_double (1 / 1000000)
     < \<bar>fsub 1 (py_truediv 5000000000000000000 1000000000000000000)\<bar>"
  by (simp add: lp_five fsub_one_five tolerance_double)

text \<open>
  A live balance of \<open>1000001000000000001\<close> against a stored amount of 1: the exact
  difference is above \<open>1e-6\<close>, the difference of the doubles is \<open>4503599627 * 2 ^ -52\<close>, not
  above the tolerance.
\<close>

lemma binade_above_one: "binade (1000001000000000001 / 1000000000000000000) = 0"
  by (simp add: binade_eval)

lemma lp_above_one:
  "py_truediv 1000001000000000001 1000000000000000000 = 4503604130970123 / 4503599627370496"
  by (simp add: py_truediv_def round_eval binade_above_one)

lemma binade_gap_one: "binade (4503599627 / 4503599627370496) = - 20"
  by (simp add: binade_eval)

lemma fsub_above_one:
  "fsub 1 (4503604130970123 / 4503599627370496) = - (4503599627 / 4503599627370496)"
  by (simp add: fsub_def round_eval binade_gap_one)

lemma above_one_within_tolerance:
  "\<not> round_double (1 / 1000000)
       < \<bar>fsub 1 (py_truediv 1000001000000000001 1000000000000000000)\<bar>"
  by (simp add: lp_above_one fsub_above_one tolerance_double)

lemma above_one_exact_difference:
  "(1 / 1000000 :: rat) < \<bar>1 - 1000001000000000001 / 1000000000000000000\<bar>"
  by simp

text \<open>
  A live balance of \<open>2000001000000000000\<close> against a stored amount of 2: the exact
  difference is \<open>1e-6\<close>, the difference of the doubles is \<open>1125899907 * 2 ^ -50\<close>, above the
  tolerance.
\<close>

lemma binade_above_two: "binade (2000001 / 1000000) = 1"
  by (simp add: binade_eval)

lemma lp_above_two:
  "py_truediv 2000001000000000000 1000000000000000000 = 2251800939585155 / 1125899906842624"
  by (simp add: py_truediv_def round_eval binade_above_two)

lemma binade_gap_two: "binade (1125899907 / 1125899906842624) = - 20"
  by (simp add: binade_eval)

lemma fsub_above_two:
  "fsub 2 (2251800939585155 / 1125899906842624) = - (1125899907 / 1125899906842624)"
  by (simp add: fsub_def round_eval binade_gap_two)

lemma above_two_beyond_tolerance:
  "round_double (1 / 1000000)
     < \<bar>fsub 2 (py_truediv 2000001000000000000 1000000000000000000)\<bar>"
  by (simp add: lp_above_two fsub_above_two tolerance_double)

lemma above_two_exact_difference:
  "\<not> (1 / 1000000 :: rat) < \<bar>2 - 2000001000000000000 / 1000000000000000000\<bar>"
  by simp

section \<open>Properties of the decision engine\<close>

lemma breach_loop_fst:
  "fst (breach_loop P A) = (\<exists>p \<in> set P. \<bar>bin_id p - A\<bar> \<ge> 2)"
  by (induction P) (simp_all add: Let_def DISTANCE_THRESHOLD_def)

lemma breach_loop_first:
  "\<forall>q \<in> set pre. \<bar>bin_id q - A\<bar> < 2 \<Longrightarrow> \<bar>bin_id p - A\<bar> \<ge> 2 \<Longrightarrow>
   breach_loop (pre @ p # post) A = (True, breach_reason (bin_id p) \<bar>bin_id p - A\<bar> A)"
  by (induction pre) (simp_all add: Let_def DISTANCE_THRESHOLD_def)

text \<open>
  C1.  For every list of positions \<open>P\<close> and every active bin \<open>A\<close>, \<open>should_rebalance\<close>
  answers true exactly when some position of \<open>P\<close> lies at distance \<open>|bin - A| \<ge> 2\<close> from the
  active bin; for the empty list it answers false.
\<close>

theorem should_rebalance_iff:
  "fst (should_rebalance pool P A) = (\<exists>p \<in> set P. \<bar>bin_id p - A\<bar> \<ge> 2)
   \<and> fst (should_rebalance pool [] A) = False"
  by (simp add: should_rebalance_def breach_loop_fst)

theorem should_rebalance_iff_witness:
  "fst (should_rebalance ()
      [\<lparr>bin_id = 101, lp_balance = 5, token_x = ''x'', token_y = ''y'', reserve_x = 0,
        reserve_y = 0, distance_from_active = -1\<rparr>,
       \<lparr>bin_id = 104, lp_balance = 5, token_x = ''x'', token_y = ''y'', reserve_x = 0,
        reserve_y = 0, distance_from_active = 2\<rparr>] 102) = True
   \<and> fst (should_rebalance ()
      [\<lparr>bin_id = 101, lp_balance = 5, token_x = ''x'', token_y = ''y'', reserve_x = 0,
        reserve_y = 0, distance_from_active = -1\<rparr>] 102) = False"
  using should_rebalance_iff [of "()"
      "[\<lparr>bin_id = 101, lp_balance = 5, token_x = ''x'', token_y = ''y'', reserve_x = 0,
        reserve_y = 0, distance_from_active = -1\<rparr>,
       \<lparr>bin_id = 104, lp_balance = 5, token_x = ''x'', token_y = ''y'', reserve_x = 0,
        reserve_y = 0, distance_from_active = 2\<rparr>]" 102]
    should_rebalance_iff [of "()"
      "[\<lparr>bin_id = 101, lp_balance = 5, token_x = ''x'', token_y = ''y'', reserve_x = 0,
        reserve_y = 0, distance_from_active = -1\<rparr>]" 102]
  by simp

text \<open>
  C7.  The positions are examined in the order supplied and the first one at distance
  \<open>\<ge> 2\<close> decides: whatever follows it (a worse breach included), the answer is true with the
  reason naming that position's bin and its distance.
\<close>

theorem should_rebalance_first_breach:
  assumes "\<forall>q \<in> set pre. \<bar>bin_id q - A\<bar> < 2"
    and "\<bar>bin_id p - A\<bar> \<ge> 2"
  shows "should_rebalance pool (pre @ p # post) A =
     (True, ''Position in bin '' @ str_int (bin_id p) @ '' is '' @ str_int \<bar>bin_id p - A\<bar>
              @ '' bins away from active bin '' @ str_int A)"
  using breach_loop_first [OF assms, of post]
  by (simp add: should_rebalance_def breach_reason_def)

theorem should_rebalance_first_breach_witness:
  "should_rebalance ()
      [\<lparr>bin_id = 100, lp_balance = 5, token_x = ''x'', token_y = ''y'', reserve_x = 0,
        reserve_y = 0, distance_from_active = -3\<rparr>] 103
     = (True, ''Position in bin 100 is 3 bins away from active bin 103'')
   \<and> should_rebalance ()
      [\<lparr>bin_id = 102, lp_balance = 1, token_x = ''x'', token_y = ''y'', reserve_x = 0,
        reserve_y = 0, distance_from_active = -1\<rparr>,
       \<lparr>bin_id = 100, lp_balance = 5, token_x = ''x'', token_y = ''y'', reserve_x = 0,
        reserve_y = 0, distance_from_active = -3\<rparr>,
       \<lparr>bin_id = 90, lp_balance = 5, token_x = ''x'', token_y = ''y'', reserve_x = 0,
        reserve_y = 0, distance_from_active = -13\<rparr>] 103
     = (True, ''Position in bin 100 is 3 bins away from active bin 103'')"
proof -
  have s100: "str_int 100 = ''100''" and s3: "str_int 3 = ''3''" and s103: "str_int 103 = ''103''"
    by code_simp+
  let ?p = "\<lparr>bin_id = 100, lp_balance = 5, token_x = ''x'', token_y = ''y'', reserve_x = 0,
        reserve_y = 0, distance_from_active = -3\<rparr>"
  let ?q = "\<lparr>bin_id = 102, lp_balance = 1, token_x = ''x'', token_y = ''y'', reserve_x = 0,
        reserve_y = 0, distance_from_active = -1\<rparr>"
  let ?r = "\<lparr>bin_id = 90, lp_balance = 5, token_x = ''x'', token_y = ''y'', reserve_x = 0,
        reserve_y = 0, distance_from_active = -13\<rparr>"
  have a: "should_rebalance () ([] @ ?p # []) 103 =
     (True, ''Position in bin '' @ str_int (bin_id ?p) @ '' is '' @ str_int \<bar>bin_id ?p - 103\<bar>
              @ '' bins away from active bin '' @ str_int 103)"
    by (rule should_rebalance_first_breach) simp_all
  have b: "should_rebalance () ([?q] @ ?p # [?r]) 103 =
     (True, ''Position in bin '' @ str_int (bin_id ?p) @ '' is '' @ str_int \<bar>bin_id ?p - 103\<bar>
              @ '' bins away from active bin '' @ str_int 103)"
    by (rule should_rebalance_first_breach) simp_all
  from a b show ?thesis by (simp add: s100 s3 s103)
qed

text \<open>
  C10.  \<open>get_optimal_bin\<close> is a function of the active bin and the token side alone: one
  above the active bin for WAVAX, one below it for BTC.b.
\<close>

theorem get_optimal_bin_offsets:
  "get_optimal_bin pool A ''WAVAX'' = A + 1 \<and> get_optimal_bin pool A ''BTC.b'' = A - 1
   \<and> get_optimal_bin pool' A side = get_optimal_bin pool A side"
  by (simp add: get_optimal_bin_def)

section \<open>The loop over the stored positions\<close>

lemma log_call_simps [simp]:
  "chain (log_call k s) = chain s" "db (log_call k s) = db s"
  "trace (log_call k s) = trace s @ [k]"
  by (simp_all add: log_call_def)

lemma update_position_positions:
  "positions (snd (update_position d pid a act)) =
     (if 1 \<le> pid \<and> pid \<le> length (positions d)
      then (positions d)[pid - 1 := ((positions d) ! (pid - 1))\<lparr>amount := a, active := act\<rparr>]
      else positions d)"
  and update_position_operations: "operations (snd (update_position d pid a act)) = operations d"
  by (simp_all add: update_position_def)

lemma db_step_chain [simp]: "chain (fst (db_step E pl w A pos st)) = chain (fst st)"
  by (simp add: db_step_def Let_def deactivate_position_def split: option.splits prod.splits)

lemma db_step_operations [simp]:
  "operations (db (fst (db_step E pl w A pos st))) = operations (db (fst st))"
  by (simp add: db_step_def Let_def deactivate_position_def update_position_operations
      split: option.splits prod.splits)

lemma db_step_emits:
  "snd (db_step E pl w A pos st) =
     snd st @ live_position E pl (chain (fst st)) w A (row_bin_id (snd pos))"
  by (simp add: db_step_def live_position_def Let_def split: option.splits prod.splits)

lemma db_step_rows:
  assumes "positions (db (fst st)) = pre @ y # ys"
  shows "positions (db (fst (db_step E pl w A (Suc (length pre), y) st))) =
           pre @ checked_row E (chain (fst st)) w y # ys"
  using assms
  by (simp add: db_step_def checked_row_def Let_def deactivate_position_def
      update_position_positions split: option.splits prod.splits)

lemma db_loop_chain [simp]: "chain (fst (db_loop E pl w A ps st)) = chain (fst st)"
  by (induction ps arbitrary: st) simp_all

lemma db_loop_operations [simp]:
  "operations (db (fst (db_loop E pl w A ps st))) = operations (db (fst st))"
  by (induction ps arbitrary: st) simp_all

lemma db_loop_emits:
  "snd (db_loop E pl w A ps st) =
     snd st @ concat (map (\<lambda>pos. live_position E pl (chain (fst st)) w A (row_bin_id (snd pos))) ps)"
  by (induction ps arbitrary: st) (simp_all add: db_step_emits)

lemma db_loop_rows_gen:
  assumes "positions (db (fst st)) = pre @ ys"
  shows "positions (db (fst (db_loop E pl w A
            (filter (\<lambda>(i, r). P r) (enumerate (Suc (length pre)) ys)) st))) =
         pre @ map (\<lambda>r. if P r then checked_row E (chain (fst st)) w r else r) ys"
  using assms
proof (induction ys arbitrary: pre st)
  case Nil
  then show ?case by simp
next
  case (Cons y ys)
  show ?case
  proof (cases "P y")
    case True
    let ?st = "db_step E pl w A (Suc (length pre), y) st"
    have "positions (db (fst ?st)) = (pre @ [checked_row E (chain (fst st)) w y]) @ ys"
      using db_step_rows [OF Cons.prems] by simp
    from Cons.IH [OF this] True show ?thesis by simp
  next
    case False
    have "positions (db (fst st)) = (pre @ [y]) @ ys" using Cons.prems by simp
    from Cons.IH [OF this] False show ?thesis by simp
  qed
qed

subsection \<open>Store lookups and the rows after the loop\<close>

lemma pool_address_nonempty: "POOL_ADDRESS \<noteq> []"
  by (simp add: POOL_ADDRESS_def)

lemma get_active_positions_tracked:
  "get_active_positions d w (Some POOL_ADDRESS) =
     filter (\<lambda>(i, r). tracked w r) (enumerate (Suc 0) (positions d))"
  by (simp add: get_active_positions_def tracked_def pool_address_nonempty)

lemma map_snd_filter_enumerate:
  "map snd (filter (\<lambda>(i, r). P r) (enumerate n xs)) = filter P xs"
  by (induction xs arbitrary: n) simp_all

lemma active_bins_snapshot:
  "map (\<lambda>pos. row_bin_id (snd pos)) (get_active_positions d w (Some POOL_ADDRESS)) = active_bins d w"
proof -
  have "map (\<lambda>pos. row_bin_id (snd pos)) (get_active_positions d w (Some POOL_ADDRESS)) =
        map row_bin_id (map snd (get_active_positions d w (Some POOL_ADDRESS)))"
    by simp
  then show ?thesis
    by (simp only: get_active_positions_tracked map_snd_filter_enumerate active_bins_def)
qed

lemma get_active_positions_empty_iff:
  "get_active_positions d w (Some POOL_ADDRESS) = [] \<longleftrightarrow> active_bins d w = []"
  using active_bins_snapshot [of d w] by (metis map_is_Nil_conv)

lemma find_enumerate_None:
  "find (\<lambda>(i, r). P r) (enumerate n xs) = None \<longleftrightarrow> (\<forall>x \<in> set xs. \<not> P x)"
  by (induction xs arbitrary: n) simp_all

lemma get_position_by_bin_None:
  "get_position_by_bin d w b POOL_ADDRESS = None \<longleftrightarrow> b \<notin> set (active_bins d w)"
proof -
  have "get_position_by_bin d w b POOL_ADDRESS =
          find (\<lambda>(i, r). tracked w r \<and> row_bin_id r = b) (enumerate 1 (positions d))"
    unfolding get_position_by_bin_def tracked_def
    by (rule arg_cong [where f = "\<lambda>P. find P (enumerate 1 (positions d))"]) auto
  then show ?thesis
    by (auto simp: find_enumerate_None active_bins_def)
qed

lemma db_loop_rows:
  "positions (db (fst (db_loop E pl w A (get_active_positions (db s) w (Some POOL_ADDRESS)) (s, acc)))) =
     map (\<lambda>r. if tracked w r then checked_row E (chain s) w r else r) (positions (db s))"
  using db_loop_rows_gen [of "(s, acc)" "[]" "positions (db s)" E pl w A "tracked w"]
  by (simp add: get_active_positions_tracked)

lemma tracked_checked_row:
  "tracked w r \<Longrightarrow>
   tracked w (checked_row E c w r) \<longleftrightarrow> lp_balanceOf E c w (row_bin_id r) \<noteq> Some 0"
  by (auto simp: tracked_def checked_row_def split: option.splits)

lemma checked_row_key [simp]:
  "row_bin_id (checked_row E c w r) = row_bin_id r"
  "wallet_address (checked_row E c w r) = wallet_address r"
  "pool_address (checked_row E c w r) = pool_address r"
  by (simp_all add: checked_row_def split: option.splits)

lemma checked_row_active: "active (checked_row E c w r) \<Longrightarrow> tracked w r \<Longrightarrow> active r"
  by (simp add: tracked_def)

lemma active_bins_after_checks:
  "map row_bin_id (filter (tracked w)
      (map (\<lambda>r. if tracked w r then checked_row E c w r else r) rows)) =
   filter (\<lambda>b. lp_balanceOf E c w b \<noteq> Some 0) (map row_bin_id (filter (tracked w) rows))"
  by (induction rows) (simp_all add: tracked_checked_row)

lemma db_loop_active_bins:
  "active_bins (db (fst (db_loop E pl w A (get_active_positions (db s) w (Some POOL_ADDRESS)) (s, acc)))) w =
     filter (\<lambda>b. lp_balanceOf E (chain s) w b \<noteq> Some 0) (active_bins (db s) w)"
  by (simp add: active_bins_def db_loop_rows active_bins_after_checks)

section \<open>The loop over the scanned bins\<close>

lemma balance_checks_append:
  "balance_checks (xs @ ys) = balance_checks xs @ balance_checks ys"
  by (induction xs rule: balance_checks.induct) simp_all

lemma sent_append: "sent (xs @ ys) = sent xs @ sent ys"
  by (induction xs rule: sent.induct) simp_all

lemma live_position_active_id:
  "live_position E pl c w A b = [] \<longleftrightarrow> live_position E pl c w A' b = []"
  by (simp add: live_position_def split: option.splits)

lemma scanned_rows_Nil: "scanned_rows E pl c w b = [] \<longleftrightarrow> live_position E pl c w A b = []"
  using live_position_active_id [of E pl c w 0 b A] by (simp add: scanned_rows_def)

lemma scan_step_chain [simp]: "chain (fst (scan_step E pl w A u b st)) = chain (fst st)"
  by (simp add: scan_step_def Let_def add_position_def split: option.splits prod.splits)

lemma scan_step_operations [simp]:
  "operations (db (fst (scan_step E pl w A u b st))) = operations (db (fst st))"
  by (simp add: scan_step_def Let_def add_position_def split: option.splits prod.splits)

lemma scan_step_emits:
  "snd (scan_step E pl w A u b st) = snd st @ live_position E pl (chain (fst st)) w A b"
  by (simp add: scan_step_def live_position_def Let_def split: option.splits prod.splits)

lemma scan_step_checks:
  "balance_checks (trace (fst (scan_step E pl w A u b st))) =
     balance_checks (trace (fst st)) @ [(w, b)]"
  by (simp add: scan_step_def Let_def balance_checks_append split: option.splits prod.splits)

lemma scan_step_sent:
  "sent (trace (fst (scan_step E pl w A u b st))) = sent (trace (fst st))"
  by (simp add: scan_step_def Let_def sent_append split: option.splits prod.splits)

lemma scan_step_rows:
  "positions (db (fst (scan_step E pl w A u b st))) =
     positions (db (fst st)) @
       (if u \<and> b \<notin> set (active_bins (db (fst st)) w)
        then scanned_rows E pl (chain (fst st)) w b else [])"
  by (simp add: scan_step_def Let_def add_position_def scanned_rows_def live_position_def
      get_position_by_bin_None [symmetric] split: option.splits prod.splits)

lemma scanned_rows_props:
  "\<forall>r \<in> set (scanned_rows E pl c w b). tracked w r \<and> row_bin_id r = b"
  by (simp add: scanned_rows_def tracked_def)

lemma scanned_rows_length: "length (scanned_rows E pl c w b) \<le> 1"
  by (simp add: scanned_rows_def live_position_def split: option.splits)

lemma scanned_rows_tracked:
  "filter (tracked w) (scanned_rows E pl c w b) = scanned_rows E pl c w b"
  "map row_bin_id (scanned_rows E pl c w b) = (if scanned_rows E pl c w b = [] then [] else [b])"
proof -
  show "filter (tracked w) (scanned_rows E pl c w b) = scanned_rows E pl c w b"
    using scanned_rows_props [of E pl c w b] by (simp add: filter_id_conv)
  show "map row_bin_id (scanned_rows E pl c w b) = (if scanned_rows E pl c w b = [] then [] else [b])"
    using scanned_rows_props [of E pl c w b] scanned_rows_length [of E pl c w b]
    by (cases "scanned_rows E pl c w b") auto
qed

lemma scan_step_active_bins:
  "active_bins (db (fst (scan_step E pl w A u b st))) w =
     active_bins (db (fst st)) w @
       (if u \<and> b \<notin> set (active_bins (db (fst st)) w) \<and> live_position E pl (chain (fst st)) w A b \<noteq> []
        then [b] else [])"
  by (simp add: active_bins_def scan_step_rows scanned_rows_tracked scanned_rows_Nil [of E pl _ w b A])

lemma scan_loop_chain [simp]: "chain (fst (scan_loop E pl w A u bins st)) = chain (fst st)"
  by (induction bins arbitrary: st) simp_all

lemma scan_loop_operations [simp]:
  "operations (db (fst (scan_loop E pl w A u bins st))) = operations (db (fst st))"
  by (induction bins arbitrary: st) simp_all

lemma scan_loop_emits:
  "snd (scan_loop E pl w A u bins st) =
     snd st @ concat (map (live_position E pl (chain (fst st)) w A) bins)"
  by (induction bins arbitrary: st) (simp_all add: scan_step_emits)

lemma scan_loop_checks:
  "balance_checks (trace (fst (scan_loop E pl w A u bins st))) =
     balance_checks (trace (fst st)) @ map (Pair w) bins"
  by (induction bins arbitrary: st) (simp_all add: scan_step_checks)

lemma scan_loop_sent:
  "sent (trace (fst (scan_loop E pl w A u bins st))) = sent (trace (fst st))"
  by (induction bins arbitrary: st) (simp_all add: scan_step_sent)

lemma scan_loop_no_store:
  "db (fst (scan_loop E pl w A False bins st)) = db (fst st)"
proof (induction bins arbitrary: st)
  case Nil
  then show ?case by simp
next
  case (Cons b bins)
  have "db (fst (scan_step E pl w A False b st)) = db (fst st)"
    by (simp add: scan_step_def Let_def split: option.splits prod.splits)
  with Cons.IH show ?case by simp
qed

lemma scan_loop_rows_mono:
  "set (positions (db (fst st))) \<subseteq> set (positions (db (fst (scan_loop E pl w A u bins st))))"
proof (induction bins arbitrary: st)
  case Nil
  then show ?case by simp
next
  case (Cons b bins)
  have "set (positions (db (fst st))) \<subseteq> set (positions (db (fst (scan_step E pl w A u b st))))"
    by (simp add: scan_step_rows)
  with Cons.IH [of "scan_step E pl w A u b st"] show ?case by auto
qed

lemma scan_loop_stores:
  assumes "b \<in> set bins"
    and "b \<notin> set (active_bins (db (fst st)) w)"
  shows "set (scanned_rows E pl (chain (fst st)) w b)
           \<subseteq> set (positions (db (fst (scan_loop E pl w A True bins st))))"
  using assms
proof (induction bins arbitrary: st)
  case Nil
  then show ?case by simp
next
  case (Cons b' bins)
  let ?st = "scan_step E pl w A True b' st"
  show ?case
  proof (cases "b' = b")
    case True
    have "set (scanned_rows E pl (chain (fst st)) w b) \<subseteq> set (positions (db (fst ?st)))"
      using Cons.prems(2) True by (simp add: scan_step_rows)
    with scan_loop_rows_mono [of ?st E pl w A True bins] show ?thesis by auto
  next
    case False
    with Cons.prems have "b \<in> set bins" "b \<notin> set (active_bins (db (fst ?st)) w)"
      by (simp_all add: scan_step_active_bins)
    from Cons.IH [OF this] show ?thesis by simp
  qed
qed

lemma scan_loop_active_bins:
  assumes "distinct bins"
    and "\<forall>b \<in> set bins. live_position E pl (chain (fst st)) w A b \<noteq> []
            \<longrightarrow> b \<notin> set (active_bins (db (fst st)) w)"
  shows "active_bins (db (fst (scan_loop E pl w A True bins st))) w =
           active_bins (db (fst st)) w @
             filter (\<lambda>b. live_position E pl (chain (fst st)) w A b \<noteq> []) bins"
  using assms
proof (induction bins arbitrary: st)
  case Nil
  then show ?case by simp
next
  case (Cons b bins)
  let ?st = "scan_step E pl w A True b st"
  have ab: "active_bins (db (fst ?st)) w =
              active_bins (db (fst st)) w @
                (if live_position E pl (chain (fst st)) w A b \<noteq> [] then [b] else [])"
    using Cons.prems(2) by (auto simp: scan_step_active_bins)
  have "distinct bins" using Cons.prems(1) by simp
  moreover have "\<forall>b' \<in> set bins. live_position E pl (chain (fst ?st)) w A b' \<noteq> []
            \<longrightarrow> b' \<notin> set (active_bins (db (fst ?st)) w)"
    using Cons.prems by (auto simp: ab)
  ultimately have "active_bins (db (fst (scan_loop E pl w A True bins ?st))) w =
           active_bins (db (fst ?st)) w @
             filter (\<lambda>b. live_position E pl (chain (fst ?st)) w A b \<noteq> []) bins"
    by (rule Cons.IH)
  then show ?case by (simp add: ab)
qed

subsection \<open>The scan as a whole\<close>

lemma scan_bins_raises:
  "getActiveId E (chain s) = None \<Longrightarrow>
   scan_bins E pl w sr u ps s = (None, log_call CallGetActiveId s)"
  by (simp add: scan_bins_def get_active_bin_def)

lemma scan_bins_runs:
  "getActiveId E (chain s) = Some A \<Longrightarrow>
   scan_bins E pl w sr u ps s =
     (Some (snd (scan_loop E pl w A u [max 0 (A - sr)..A + sr] (log_call CallGetActiveId s, ps))),
      fst (scan_loop E pl w A u [max 0 (A - sr)..A + sr] (log_call CallGetActiveId s, ps)))"
  by (simp add: scan_bins_def get_active_bin_def Let_def)

lemma scan_bins_chain [simp]: "chain (snd (scan_bins E pl w sr u ps s)) = chain s"
  by (cases "getActiveId E (chain s)") (simp_all add: scan_bins_raises scan_bins_runs)

lemma scan_bins_operations [simp]:
  "operations (db (snd (scan_bins E pl w sr u ps s))) = operations (db s)"
  by (cases "getActiveId E (chain s)") (simp_all add: scan_bins_raises scan_bins_runs)

lemma scan_bins_sent: "sent (trace (snd (scan_bins E pl w sr u ps s))) = sent (trace s)"
  by (cases "getActiveId E (chain s)")
     (simp_all add: scan_bins_raises scan_bins_runs scan_loop_sent sent_append)

lemma scan_bins_result:
  "getActiveId E (chain s) = Some A \<Longrightarrow>
   fst (scan_bins E pl w sr u ps s) =
     Some (ps @ concat (map (live_position E pl (chain s) w A) [max 0 (A - sr)..A + sr]))"
  by (simp add: scan_bins_runs scan_loop_emits)

lemma scan_bins_checks:
  "getActiveId E (chain s) = Some A \<Longrightarrow>
   balance_checks (trace (snd (scan_bins E pl w sr u ps s))) =
     balance_checks (trace s) @ map (Pair w) [max 0 (A - sr)..A + sr]"
  by (simp add: scan_bins_runs scan_loop_checks balance_checks_append)

lemma scan_bins_no_store: "db (snd (scan_bins E pl w sr False ps s)) = db s"
  by (cases "getActiveId E (chain s)")
     (simp_all add: scan_bins_raises scan_bins_runs scan_loop_no_store)

lemma scan_bins_rows_mono:
  "set (positions (db s)) \<subseteq> set (positions (db (snd (scan_bins E pl w sr u ps s))))"
proof (cases "getActiveId E (chain s)")
  case None
  then show ?thesis by (simp add: scan_bins_raises)
next
  case (Some A)
  show ?thesis
    using scan_loop_rows_mono [of "(log_call CallGetActiveId s, ps)" E pl w A u "[max 0 (A - sr)..A + sr]"]
    by (simp add: scan_bins_runs [OF Some])
qed

lemma scan_bins_stores:
  assumes "getActiveId E (chain s) = Some A"
    and "max 0 (A - sr) \<le> b" and "b \<le> A + sr"
    and "b \<notin> set (active_bins (db s) w)"
  shows "set (scanned_rows E pl (chain s) w b)
           \<subseteq> set (positions (db (snd (scan_bins E pl w sr True ps s))))"
proof -
  have "b \<in> set [max 0 (A - sr)..A + sr]" using assms(2,3) by simp
  from scan_loop_stores [of b _ "(log_call CallGetActiveId s, ps)" w E pl A, OF this]
  show ?thesis using assms(4) by (simp add: scan_bins_runs [OF assms(1)])
qed

lemma scan_bins_active_bins:
  assumes "getActiveId E (chain s) = Some A"
    and "\<forall>b \<in> set (active_bins (db s) w). live_position E pl (chain s) w A b = []"
  shows "active_bins (db (snd (scan_bins E pl w sr True ps s))) w =
           active_bins (db s) w @
             filter (\<lambda>b. live_position E pl (chain s) w A b \<noteq> []) [max 0 (A - sr)..A + sr]"
proof -
  let ?st = "(log_call CallGetActiveId s, ps)"
  have "\<forall>b \<in> set [max 0 (A - sr)..A + sr]. live_position E pl (chain (fst ?st)) w A b \<noteq> []
            \<longrightarrow> b \<notin> set (active_bins (db (fst ?st)) w)"
    using assms(2) by auto
  from scan_loop_active_bins [of "[max 0 (A - sr)..A + sr]" E pl ?st w A, OF _ this]
  show ?thesis by (simp add: scan_bins_runs [OF assms(1)])
qed

lemma scan_bins_rows_prefix:
  "take (length (positions (db s))) (positions (db (snd (scan_bins E pl w sr u ps s)))) =
     positions (db s)"
proof -
  have step: "\<And>st b. take (length (positions (db (fst st))))
                 (positions (db (fst (scan_step E pl w A u b st)))) = positions (db (fst st))" for A
    by (simp add: scan_step_rows)
  have loop: "take (length (positions (db (fst st))))
                 (positions (db (fst (scan_loop E pl w A u bins st)))) = positions (db (fst st))"
    for A bins st
  proof (induction bins arbitrary: st)
    case Nil
    then show ?case by simp
  next
    case (Cons b bins)
    let ?st = "scan_step E pl w A u b st"
    have le: "length (positions (db (fst st))) \<le> length (positions (db (fst ?st)))"
      by (simp add: scan_step_rows)
    have "take (length (positions (db (fst st))))
            (take (length (positions (db (fst ?st))))
               (positions (db (fst (scan_loop E pl w A u bins ?st))))) =
          take (length (positions (db (fst st)))) (positions (db (fst ?st)))"
      by (simp only: Cons.IH)
    then show ?case using le by (simp add: min_absorb2 step)
  qed
  show ?thesis
  proof (cases "getActiveId E (chain s)")
    case None
    then show ?thesis by (simp add: scan_bins_raises)
  next
    case (Some A)
    show ?thesis
      using loop [of "(log_call CallGetActiveId s, ps)" A "[max 0 (A - sr)..A + sr]"]
      by (simp add: scan_bins_runs [OF Some])
  qed
qed

section \<open>Position resolution as a whole\<close>

text \<open>What \<open>get_all_lp_balances\<close> does, by the case it takes.\<close>

lemma resolve_scan_only:
  "get_all_lp_balances E pl w sr False s = scan_bins E pl w sr False [] s"
  by (simp add: get_all_lp_balances_def)

lemma resolve_empty_cache:
  "active_bins (db s) w = [] \<Longrightarrow>
   get_all_lp_balances E pl w sr True s = scan_bins E pl w sr True [] s"
  by (simp add: get_all_lp_balances_def get_active_positions_empty_iff)

lemma resolve_raises:
  "active_bins (db s) w \<noteq> [] \<Longrightarrow> getActiveId E (chain s) = None \<Longrightarrow>
   get_all_lp_balances E pl w sr True s = (None, log_call CallGetActiveId s)"
  by (simp add: get_all_lp_balances_def get_active_positions_empty_iff get_active_bin_def)

lemma cache_pass_emits:
  "snd (cache_pass E pl w A s) =
     concat (map (live_position E pl (chain s) w A) (active_bins (db s) w))"
  by (simp add: cache_pass_def db_loop_emits active_bins_snapshot [symmetric] comp_def)

lemma cache_pass_chain [simp]: "chain (fst (cache_pass E pl w A s)) = chain s"
  by (simp add: cache_pass_def)

lemma cache_pass_operations [simp]:
  "operations (db (fst (cache_pass E pl w A s))) = operations (db s)"
  by (simp add: cache_pass_def)

lemma cache_pass_rows:
  "positions (db (fst (cache_pass E pl w A s))) =
     map (\<lambda>r. if tracked w r then checked_row E (chain s) w r else r) (positions (db s))"
  using db_loop_rows [of E pl w A "log_call CallGetActiveId s" "[]"]
  by (simp add: cache_pass_def)

lemma cache_pass_active_bins:
  "active_bins (db (fst (cache_pass E pl w A s))) w =
     filter (\<lambda>b. lp_balanceOf E (chain s) w b \<noteq> Some 0) (active_bins (db s) w)"
  using db_loop_active_bins [of E pl w A "log_call CallGetActiveId s" "[]"]
  by (simp add: cache_pass_def)

lemma resolve_cache_hit:
  "active_bins (db s) w \<noteq> [] \<Longrightarrow> getActiveId E (chain s) = Some A \<Longrightarrow>
   snd (cache_pass E pl w A s) \<noteq> [] \<Longrightarrow>
   get_all_lp_balances E pl w sr True s =
     (Some (snd (cache_pass E pl w A s)), fst (cache_pass E pl w A s))"
  by (simp add: get_all_lp_balances_def get_active_positions_empty_iff get_active_bin_def
      cache_pass_def Let_def)

lemma resolve_cache_miss:
  "active_bins (db s) w \<noteq> [] \<Longrightarrow> getActiveId E (chain s) = Some A \<Longrightarrow>
   snd (cache_pass E pl w A s) = [] \<Longrightarrow>
   get_all_lp_balances E pl w sr True s =
     scan_bins E pl w sr True [] (fst (cache_pass E pl w A s))"
  by (simp add: get_all_lp_balances_def get_active_positions_empty_iff get_active_bin_def
      cache_pass_def Let_def)

lemma resolve_chain [simp]: "chain (snd (get_all_lp_balances E pl w sr u s)) = chain s"
proof (cases u)
  case False
  then show ?thesis by (simp add: resolve_scan_only)
next
  case True
  show ?thesis
  proof (cases "active_bins (db s) w = []")
    case e: True
    then show ?thesis using True by (simp add: resolve_empty_cache)
  next
    case ne: False
    show ?thesis
    proof (cases "getActiveId E (chain s)")
      case None
      then show ?thesis using True ne by (simp add: resolve_raises)
    next
      case (Some A)
      then show ?thesis using True ne
        by (cases "snd (cache_pass E pl w A s) = []")
           (simp_all add: resolve_cache_hit resolve_cache_miss)
    qed
  qed
qed

lemma resolve_result:
  "fst (get_all_lp_balances E pl w sr u s) =
     (case getActiveId E (chain s) of
        None \<Rightarrow> None
      | Some A \<Rightarrow>
          Some (if u \<and> concat (map (live_position E pl (chain s) w A) (active_bins (db s) w)) \<noteq> []
                then concat (map (live_position E pl (chain s) w A) (active_bins (db s) w))
                else concat (map (live_position E pl (chain s) w A) [max 0 (A - sr)..A + sr])))"
proof (cases "getActiveId E (chain s)")
  case None
  then show ?thesis
    by (cases u; cases "active_bins (db s) w = []")
       (simp_all add: resolve_scan_only resolve_empty_cache resolve_raises scan_bins_raises)
next
  case (Some A)
  show ?thesis
  proof (cases "u \<and> active_bins (db s) w \<noteq> []")
    case False
    then show ?thesis using Some
      by (cases u) (auto simp: resolve_scan_only resolve_empty_cache scan_bins_result)
  next
    case True
    then show ?thesis using Some
      by (cases "snd (cache_pass E pl w A s) = []")
         (simp_all add: resolve_cache_hit resolve_cache_miss scan_bins_result cache_pass_emits)
  qed
qed

subsection \<open>Resolving twice\<close>

lemma concat_map_filter_nonempty:
  "concat (map f (filter (\<lambda>x. f x \<noteq> []) xs)) = concat (map f xs)"
  by (induction xs) simp_all

lemma live_position_zero:
  "lp_balanceOf E c w b = Some 0 \<Longrightarrow> live_position E pl c w A b = []"
  by (simp add: live_position_def)

lemma concat_live_filter_nonzero:
  "concat (map (live_position E pl c w A) (filter (\<lambda>b. lp_balanceOf E c w b \<noteq> Some 0) xs)) =
   concat (map (live_position E pl c w A) xs)"
  by (induction xs) (simp_all add: live_position_zero)

lemma resolve_next_cache:
  assumes A: "getActiveId E (chain s) = Some A"
  shows "concat (map (live_position E pl (chain s) w A)
            (active_bins (db (snd (get_all_lp_balances E pl w sr True s))) w)) =
         (if concat (map (live_position E pl (chain s) w A) (active_bins (db s) w)) \<noteq> []
          then concat (map (live_position E pl (chain s) w A) (active_bins (db s) w))
          else concat (map (live_position E pl (chain s) w A) [max 0 (A - sr)..A + sr]))"
proof (cases "active_bins (db s) w = []")
  case True
  have "active_bins (db (snd (scan_bins E pl w sr True [] s))) w =
          active_bins (db s) w @
            filter (\<lambda>b. live_position E pl (chain s) w A b \<noteq> []) [max 0 (A - sr)..A + sr]"
    by (rule scan_bins_active_bins [OF A]) (simp add: True)
  then show ?thesis
    by (simp add: resolve_empty_cache [OF True] True concat_map_filter_nonempty)
next
  case ne: False
  show ?thesis
  proof (cases "snd (cache_pass E pl w A s) = []")
    case False
    then show ?thesis
      by (simp add: resolve_cache_hit [OF ne A False] cache_pass_active_bins
          concat_live_filter_nonzero cache_pass_emits)
  next
    case True
    let ?s1 = "fst (cache_pass E pl w A s)"
    have none: "\<forall>b \<in> set (active_bins (db s) w). live_position E pl (chain s) w A b = []"
      using True by (simp add: cache_pass_emits)
    have A1: "getActiveId E (chain ?s1) = Some A" using A by simp
    have "active_bins (db (snd (scan_bins E pl w sr True [] ?s1))) w =
            active_bins (db ?s1) w @
              filter (\<lambda>b. live_position E pl (chain ?s1) w A b \<noteq> []) [max 0 (A - sr)..A + sr]"
      by (rule scan_bins_active_bins [OF A1]) (use none in \<open>simp add: cache_pass_active_bins\<close>)
    moreover have "concat (map (live_position E pl (chain s) w A) (active_bins (db s) w)) = []"
      using none by simp
    ultimately show ?thesis
      by (simp add: resolve_cache_miss [OF ne A True] cache_pass_active_bins
          concat_live_filter_nonzero concat_map_filter_nonempty)
  qed
qed

lemma resolve_raises_keeps_store:
  "getActiveId E (chain s) = None \<Longrightarrow> db (snd (get_all_lp_balances E pl w sr u s)) = db s"
  by (cases u; cases "active_bins (db s) w = []")
     (simp_all add: resolve_scan_only resolve_empty_cache resolve_raises scan_bins_raises)

text \<open>
  C8.  Position resolution is idempotent: with the chain as it is, a second call of
  \<open>get_all_lp_balances\<close> with the same arguments, made on the store the first call left,
  answers what the first call answered (the same list of positions, or the same failure
  to read the active bin).
\<close>

theorem resolve_twice:
  "fst (get_all_lp_balances E pl w sr u (snd (get_all_lp_balances E pl w sr u s))) =
   fst (get_all_lp_balances E pl w sr u s)"
proof (cases "getActiveId E (chain s)")
  case None
  then show ?thesis by (simp add: resolve_result)
next
  case (Some A)
  show ?thesis
  proof (cases u)
    case False
    then show ?thesis by (simp add: resolve_result Some)
  next
    case True
    let ?s' = "snd (get_all_lp_balances E pl w sr True s)"
    let ?live = "live_position E pl (chain s) w A"
    let ?cache = "concat (map ?live (active_bins (db s) w))"
    let ?cache' = "concat (map ?live (active_bins (db ?s') w))"
    let ?window = "concat (map ?live [max 0 (A - sr)..A + sr])"
    have first: "fst (get_all_lp_balances E pl w sr True s) =
                   Some (if ?cache \<noteq> [] then ?cache else ?window)"
      by (simp add: resolve_result Some)
    have second: "fst (get_all_lp_balances E pl w sr True ?s') =
                   Some (if ?cache' \<noteq> [] then ?cache' else ?window)"
      by (simp add: resolve_result Some)
    have "?cache' = (if ?cache \<noteq> [] then ?cache else ?window)"
      by (rule resolve_next_cache [OF Some])
    then have "(if ?cache' \<noteq> [] then ?cache' else ?window) =
               (if ?cache \<noteq> [] then ?cache else ?window)"
      by (cases "?cache = []"; cases "?window = []") simp_all
    with first second show ?thesis using True by simp
  qed
qed

section \<open>Properties of the scan\<close>

lemma static_chain_simps [simp]:
  "getActiveId (static_chain a bal res rcpt) c = a"
  "lp_balanceOf (static_chain a bal res rcpt) c w b = bal b"
  "getBin (static_chain a bal res rcpt) c b = res b"
  "token_balanceOf (static_chain a bal res rcpt) c tk w = Some 0"
  "allowance (static_chain a bal res rcpt) c tk owner spender = Some 0"
  "latest_timestamp (static_chain a bal res rcpt) c = Some 1000"
  "transact (static_chain a bal res rcpt) c sender t gas = (rcpt t, c)"
  "address_of_key (static_chain a bal res rcpt) k = (if k = [] then None else Some (''0xW'' @ k))"
  by (simp_all add: static_chain_def)

lemma empty_world_simps [simp]:
  "db empty_world = \<lparr>positions = [], operations = []\<rparr>" "trace empty_world = []"
  "chain empty_world = ()"
  by (simp_all add: empty_world_def)

lemma world_with_simps [simp]:
  "db (world_with rows) = \<lparr>positions = rows, operations = []\<rparr>" "trace (world_with rows) = []"
  "chain (world_with rows) = ()"
  by (simp_all add: world_with_def)

lemma active_bins_empty_store [simp]: "active_bins \<lparr>positions = [], operations = []\<rparr> w = []"
  by (simp add: active_bins_def)

text \<open>
  C5, with the window as the code cuts it.  When the active bin reads as \<open>A\<close>, the scan with half-width \<open>sr\<close> issues
  one balance check for each bin of the window \<open>[max 0 (A - sr), A + sr]\<close>, in ascending
  order, and no other: the lower end of the window is cut off at bin 0.
\<close>

theorem scan_checks_window:
  assumes "getActiveId E (chain s) = Some A"
  shows "balance_checks (trace (snd (scan_bins E pl w sr u ps s))) =
           balance_checks (trace s) @ map (Pair w) [max 0 (A - sr)..A + sr]
         \<and> (\<forall>b. max 0 (A - sr) \<le> b \<and> b \<le> A + sr \<longrightarrow>
                (w, b) \<in> set (balance_checks (trace (snd (scan_bins E pl w sr u ps s)))))"
  by (simp add: scan_bins_checks [OF assms])

theorem scan_checks_window_witness:
  "getActiveId (static_chain (Some 100) zero_balances failing_reserves no_receipt) (chain empty_world)
     = Some 100
   \<and> balance_checks (trace (snd (scan_bins
        (static_chain (Some 100) zero_balances failing_reserves no_receipt) demo_pool ''0xWk'' 2 False []
        empty_world)))
     = [(''0xWk'', 98), (''0xWk'', 99), (''0xWk'', 100), (''0xWk'', 101), (''0xWk'', 102)]"
  using scan_checks_window [of "static_chain (Some 100) zero_balances failing_reserves no_receipt"
      empty_world 100 demo_pool "''0xWk''" 2 False "[]"]
  by (simp add: upto_rec1)

text \<open>
  With the active bin at 5 and half-width 10, bin \<open>-1\<close> lies between \<open>5 - 10\<close> and
  \<open>5 + 10\<close> and is not checked.
\<close>

theorem scan_window_clamped_counterexample:
  "getActiveId (static_chain (Some 5) zero_balances failing_reserves no_receipt) (chain empty_world)
     = Some 5
   \<and> 5 - 10 \<le> (-1 :: int) \<and> (-1 :: int) \<le> 5 + 10
   \<and> (''0xWk'', -1) \<notin> set (balance_checks (trace (snd (get_all_lp_balances
        (static_chain (Some 5) zero_balances failing_reserves no_receipt) demo_pool ''0xWk'' 10 False
        empty_world))))"
  by (auto simp: resolve_scan_only scan_bins_checks)

lemma scanned_rows_live:
  assumes "lp_balanceOf E c w b = Some bal" and "bal > 0" and "getBin E c b = Some res"
  shows "scanned_rows E pl c w b =
           [\<lparr>wallet_address = w, row_bin_id = b, amount = py_truediv (int bal) (10 ^ 18),
             row_token_x = self_token_x pl, row_token_y = self_token_y pl,
             pool_address = POOL_ADDRESS, active = True\<rparr>]"
  using assms by (cases res) (simp add: scanned_rows_def live_position_def)

lemma tracked_row_in_active_bins:
  "r \<in> set (positions d) \<Longrightarrow> tracked w r \<Longrightarrow> row_bin_id r \<in> set (active_bins d w)"
  by (auto simp: active_bins_def)

text \<open>
  C6, for the scan that writes to the store.  In a scan entered with the store preferred (\<open>use_db_first\<close>), each bin of
  the window whose balance reads positive, whose reserves read too, and that has no active
  store record, has an active record with the live balance in the store afterwards.  A scan
  entered with \<open>use_db_first\<close> false leaves the store as it was.
\<close>

theorem scan_upserts_untracked:
  assumes "getActiveId E (chain s) = Some A"
    and "max 0 (A - sr) \<le> b" and "b \<le> A + sr"
    and "lp_balanceOf E (chain s) w b = Some bal" and "bal > 0"
    and "getBin E (chain s) b = Some res"
    and "get_position_by_bin (db s) w b POOL_ADDRESS = None"
  shows "\<lparr>wallet_address = w, row_bin_id = b, amount = py_truediv (int bal) (10 ^ 18),
           row_token_x = self_token_x pl, row_token_y = self_token_y pl,
           pool_address = POOL_ADDRESS, active = True\<rparr>
           \<in> set (positions (db (snd (scan_bins E pl w sr True ps s))))
         \<and> get_position_by_bin (db (snd (scan_bins E pl w sr True ps s))) w b POOL_ADDRESS \<noteq> None
         \<and> db (snd (scan_bins E pl w sr False ps s)) = db s"
proof -
  let ?row = "\<lparr>wallet_address = w, row_bin_id = b, amount = py_truediv (int bal) (10 ^ 18),
           row_token_x = self_token_x pl, row_token_y = self_token_y pl,
           pool_address = POOL_ADDRESS, active = True\<rparr>"
  let ?d = "db (snd (scan_bins E pl w sr True ps s))"
  have "b \<notin> set (active_bins (db s) w)"
    using assms(7) by (simp add: get_position_by_bin_None)
  from scan_bins_stores [OF assms(1-3) this, of pl ps]
  have mem: "?row \<in> set (positions ?d)"
    by (simp add: scanned_rows_live [OF assms(4-6)])
  have "tracked w ?row" by (simp add: tracked_def)
  with mem have "row_bin_id ?row \<in> set (active_bins ?d w)"
    by (rule tracked_row_in_active_bins)
  then have "get_position_by_bin ?d w b POOL_ADDRESS \<noteq> None"
    by (simp add: get_position_by_bin_None)
  with mem show ?thesis by (simp add: scan_bins_no_store)
qed


theorem scan_upserts_untracked_witness:
  "getActiveId (static_chain (Some 100) demo_balances demo_reserves no_receipt) (chain empty_world)
     = Some 100
   \<and> max 0 (100 - 10) \<le> (100 :: int) \<and> (100 :: int) \<le> 100 + 10
   \<and> lp_balanceOf (static_chain (Some 100) demo_balances demo_reserves no_receipt)
        (chain empty_world) ''0xWk'' 100 = Some 5000000000000000000
   \<and> (5000000000000000000 :: nat) > 0
   \<and> getBin (static_chain (Some 100) demo_balances demo_reserves no_receipt)
        (chain empty_world) 100 = Some (7, 9)
   \<and> get_position_by_bin (db empty_world) ''0xWk'' 100 POOL_ADDRESS = None
   \<and> demo_row 100 5 \<in> set (positions (db (snd (scan_bins
        (static_chain (Some 100) demo_balances demo_reserves no_receipt) demo_pool ''0xWk'' 10
        True [] empty_world))))"
proof -
  let ?E = "static_chain (Some 100) demo_balances demo_reserves no_receipt"
  have h1: "getActiveId ?E (chain empty_world) = Some 100" by simp
  have h2: "max 0 (100 - 10) \<le> (100 :: int)" and h3: "(100 :: int) \<le> 100 + 10" by simp_all
  have h4: "lp_balanceOf ?E (chain empty_world) ''0xWk'' 100 = Some 5000000000000000000"
    by (simp add: demo_balances_def)
  have h5: "(5000000000000000000 :: nat) > 0" by simp
  have h6: "getBin ?E (chain empty_world) 100 = Some (7, 9)" by (simp add: demo_reserves_def)
  have h7: "get_position_by_bin (db empty_world) ''0xWk'' 100 POOL_ADDRESS = None"
    by (simp add: get_position_by_bin_def)
  from scan_upserts_untracked [OF h1 h2 h3 h4 h5 h6 h7, of demo_pool "[]"]
  have "demo_row 100 5 \<in> set (positions (db (snd (scan_bins ?E demo_pool ''0xWk'' 10 True []
          empty_world))))"
    by (simp add: demo_row_def demo_pool_def lp_five)
  with h1 h2 h3 h4 h5 h6 h7 show ?thesis by blast
qed

text \<open>
  A scan entered with \<open>use_db_first\<close> false on an empty store: bin 100 is checked, its
  balance is positive, no record tracks it, and the store is still empty afterwards.
\<close>

theorem scan_without_store_counterexample:
  "lp_balanceOf (static_chain (Some 100) demo_balances demo_reserves no_receipt)
        (chain empty_world) ''0xWk'' 100 = Some 5000000000000000000
   \<and> get_position_by_bin (db empty_world) ''0xWk'' 100 POOL_ADDRESS = None
   \<and> (''0xWk'', 100) \<in> set (balance_checks (trace (snd (get_all_lp_balances
        (static_chain (Some 100) demo_balances demo_reserves no_receipt) demo_pool ''0xWk'' 10
        False empty_world))))
   \<and> positions (db (snd (get_all_lp_balances
        (static_chain (Some 100) demo_balances demo_reserves no_receipt) demo_pool ''0xWk'' 10
        False empty_world))) = []"
  by (simp add: demo_balances_def get_position_by_bin_def resolve_scan_only scan_bins_checks
      scan_bins_no_store)

section \<open>Properties of the cache-preferred path\<close>





lemma resolve_rows_prefix:
  assumes "active_bins (db s) w \<noteq> []" and "getActiveId E (chain s) = Some A"
  shows "take (length (positions (db s)))
           (positions (db (snd (get_all_lp_balances E pl w sr True s)))) =
         map (\<lambda>r. if tracked w r then checked_row E (chain s) w r else r) (positions (db s))"
proof (cases "snd (cache_pass E pl w A s) = []")
  case False
  show ?thesis
    by (simp add: resolve_cache_hit [OF assms False] cache_pass_rows)
next
  case True
  let ?s1 = "fst (cache_pass E pl w A s)"
  have len: "length (positions (db ?s1)) = length (positions (db s))"
    by (simp add: cache_pass_rows)
  from scan_bins_rows_prefix [of ?s1 E pl w sr True "[]"]
  show ?thesis
    by (simp add: resolve_cache_miss [OF assms True] len cache_pass_rows)
qed

lemma snapshot_member:
  assumes "(pid, r) \<in> set (get_active_positions d w (Some POOL_ADDRESS))"
  shows "pid - 1 < length (positions d) \<and> positions d ! (pid - 1) = r \<and> tracked w r
         \<and> row_bin_id r \<in> set (active_bins d w)"
proof -
  from assms have e: "(pid, r) \<in> set (enumerate (Suc 0) (positions d))" and t: "tracked w r"
    by (simp_all add: get_active_positions_tracked)
  from e have "pid - 1 < length (positions d)" "positions d ! (pid - 1) = r"
    by (auto simp: in_set_enumerate_eq)
  moreover from this t have "row_bin_id r \<in> set (active_bins d w)"
    by (metis nth_mem tracked_row_in_active_bins)
  ultimately show ?thesis using t by simp
qed

lemma resolve_row_after:
  assumes "(pid, r) \<in> set (get_active_positions (db s) w (Some POOL_ADDRESS))"
    and "getActiveId E (chain s) = Some A"
  shows "positions (db (snd (get_all_lp_balances E pl w sr True s))) ! (pid - 1) =
           checked_row E (chain s) w r"
proof -
  let ?rows' = "positions (db (snd (get_all_lp_balances E pl w sr True s)))"
  from snapshot_member [OF assms(1)]
  have i: "pid - 1 < length (positions (db s))" and r: "positions (db s) ! (pid - 1) = r"
    and t: "tracked w r" and ne: "active_bins (db s) w \<noteq> []"
    by auto
  have "?rows' ! (pid - 1) = take (length (positions (db s))) ?rows' ! (pid - 1)"
    using i by simp
  also have "\<dots> = checked_row E (chain s) w r"
    using i r t by (simp add: resolve_rows_prefix [OF ne assms(2)])
  finally show ?thesis .
qed







lemma demo_snapshot:
  "get_active_positions \<lparr>positions = [demo_row 100 a, demo_row 101 a'], operations = []\<rparr>
     ''0xWk'' (Some POOL_ADDRESS) = [(1, demo_row 100 a), (2, demo_row 101 a')]"
  "get_active_positions \<lparr>positions = [demo_row 100 a], operations = []\<rparr> ''0xWk''
     (Some POOL_ADDRESS) = [(1, demo_row 100 a)]"
  by (simp_all add: get_active_positions_def demo_row_def POOL_ADDRESS_def enumerate_eq_zip
      upt_rec)




section \<open>The store invariant\<close>

lemma row_le_refl [simp]: "row_le r r"
  by (simp add: row_le_def)

lemma rows_le_keys:
  "list_all2 row_le rows' rows \<Longrightarrow>
   set (map row_key (filter active rows')) \<subseteq> set (map row_key (filter active rows))"
  by (induction rule: list_all2_induct) (auto simp: row_le_def)

lemma rows_le_distinct:
  "list_all2 row_le rows' rows \<Longrightarrow> distinct (map row_key (filter active rows)) \<Longrightarrow>
   distinct (map row_key (filter active rows'))"
proof (induction rule: list_all2_induct)
  case Nil
  then show ?case by simp
next
  case (Cons r' rows' r rows)
  have tl: "distinct (map row_key (filter active rows))"
    using Cons.prems by (cases "active r") simp_all
  then have IH: "distinct (map row_key (filter active rows'))" by (rule Cons.IH)
  show ?case
  proof (cases "active r'")
    case False
    with IH show ?thesis by simp
  next
    case True
    with Cons.hyps(1) have "active r" and k: "row_key r' = row_key r"
      by (simp_all add: row_le_def)
    with Cons.prems have "row_key r \<notin> set (map row_key (filter active rows))" by simp
    with rows_le_keys [OF Cons.hyps(2)] k
    have "row_key r' \<notin> set (map row_key (filter active rows'))" by auto
    with IH True show ?thesis by simp
  qed
qed

lemma rows_le_update:
  "row_le r' (rows ! i) \<Longrightarrow> list_all2 row_le (rows[i := r']) rows"
proof -
  assume "row_le r' (rows ! i)"
  moreover have "list_all2 row_le rows rows" by (simp add: list_all2_refl)
  ultimately have "list_all2 row_le (rows[i := r']) (rows[i := rows ! i])"
    by (rule list_all2_update_cong [rotated])
  then show ?thesis by simp
qed

lemma update_position_inv:
  assumes "store_inv d"
    and "act \<Longrightarrow> 1 \<le> pid \<Longrightarrow> pid \<le> length (positions d) \<Longrightarrow> active (positions d ! (pid - 1))"
  shows "store_inv (snd (update_position d pid a act))"
proof (cases "1 \<le> pid \<and> pid \<le> length (positions d)")
  case False
  with assms(1) show ?thesis by (auto simp: update_position_def)
next
  case True
  let ?r' = "(positions d ! (pid - 1))\<lparr>amount := a, active := act\<rparr>"
  have "row_le ?r' (positions d ! (pid - 1))"
    using assms(2) True by (auto simp: row_le_def row_key_def)
  from rows_le_distinct [OF rows_le_update [OF this]] assms(1) True
  show ?thesis by (simp add: update_position_def store_inv_def)
qed

lemma deactivate_position_inv: "store_inv d \<Longrightarrow> store_inv (snd (deactivate_position d pid))"
  by (simp add: deactivate_position_def update_position_inv)

lemma find_enumerate_Some:
  "find (\<lambda>(i, r). P r) (enumerate n xs) = Some pos \<Longrightarrow>
   n \<le> fst pos \<and> fst pos < n + length xs \<and> xs ! (fst pos - n) = snd pos \<and> P (snd pos)"
proof (induction xs arbitrary: n)
  case Nil
  then show ?case by simp
next
  case (Cons x xs)
  show ?case
  proof (cases "P x")
    case True
    with Cons.prems show ?thesis by auto
  next
    case False
    with Cons.prems have "find (\<lambda>(i, r). P r) (enumerate (Suc n) xs) = Some pos" by simp
    from Cons.IH [OF this] show ?thesis by (auto simp: nth_Cons')
  qed
qed

lemma get_position_by_bin_Some:
  assumes "get_position_by_bin d w b p = Some pos"
  shows "1 \<le> fst pos \<and> fst pos \<le> length (positions d) \<and> active (positions d ! (fst pos - 1))"
  using find_enumerate_Some [of "\<lambda>r. wallet_address r = w \<and> row_bin_id r = b \<and> pool_address r = p \<and> active r"
      1 "positions d" pos] assms
  by (auto simp: get_position_by_bin_def)

lemma update_found_inv:
  "store_inv d \<Longrightarrow> get_position_by_bin d w b p = Some pos \<Longrightarrow>
   store_inv (snd (update_position d (fst pos) a act))"
  using get_position_by_bin_Some [of d w b p pos] by (auto intro: update_position_inv)

lemma get_position_by_bin_None_key:
  "get_position_by_bin d w b p = None \<longleftrightarrow>
   (w, p, b) \<notin> set (map row_key (filter active (positions d)))"
proof -
  have "get_position_by_bin d w b p =
          find (\<lambda>(i, r). active r \<and> row_key r = (w, p, b)) (enumerate 1 (positions d))"
    unfolding get_position_by_bin_def row_key_def
    by (rule arg_cong [where f = "\<lambda>P. find P (enumerate 1 (positions d))"]) auto
  then show ?thesis by (force simp: find_enumerate_None)
qed

lemma add_position_inv:
  "store_inv d \<Longrightarrow> get_position_by_bin d w b p = None \<Longrightarrow>
   store_inv (snd (add_position d w b a tkx tky p))"
  by (simp add: get_position_by_bin_None_key store_inv_def add_position_def row_key_def)

lemma record_operation_positions [simp]:
  "positions (snd (record_operation d op)) = positions d"
  by (simp add: record_operation_def)

lemma record_operation_inv [simp]: "store_inv (snd (record_operation d op)) = store_inv d"
  by (simp add: store_inv_def)

lemma get_position_by_bin_record [simp]:
  "get_position_by_bin (snd (record_operation d op)) w b p = get_position_by_bin d w b p"
  by (simp add: get_position_by_bin_def)

subsection \<open>Resolution keeps the invariant; what the gateway calls leave alone\<close>

lemma checked_row_le: "tracked w r \<Longrightarrow> row_le (checked_row E c w r) r"
  by (simp add: row_le_def row_key_def tracked_def)

lemma cache_pass_inv:
  assumes "store_inv (db s)"
  shows "store_inv (db (fst (cache_pass E pl w A s)))"
proof -
  have "list_all2 row_le
          (map (\<lambda>r. if tracked w r then checked_row E (chain s) w r else r) (positions (db s)))
          (positions (db s))"
    by (simp add: list_all2_map1 list_all2_refl checked_row_le)
  from rows_le_distinct [OF this] assms show ?thesis
    by (simp add: store_inv_def cache_pass_rows)
qed

lemma scan_step_inv:
  assumes "store_inv (db (fst st))"
  shows "store_inv (db (fst (scan_step E pl w A u b st)))"
  using assms
  by (auto simp: scan_step_def Let_def add_position_inv split: option.splits prod.splits)

lemma scan_loop_inv:
  "store_inv (db (fst st)) \<Longrightarrow> store_inv (db (fst (scan_loop E pl w A u bins st)))"
  by (induction bins arbitrary: st) (simp_all add: scan_step_inv)

lemma scan_bins_inv:
  "store_inv (db s) \<Longrightarrow> store_inv (db (snd (scan_bins E pl w sr u ps s)))"
  by (cases "getActiveId E (chain s)")
     (simp_all add: scan_bins_raises scan_bins_runs scan_loop_inv)

lemma resolve_inv:
  assumes "store_inv (db s)"
  shows "store_inv (db (snd (get_all_lp_balances E pl w sr u s)))"
proof (cases "u \<and> active_bins (db s) w \<noteq> []")
  case False
  with assms show ?thesis
    by (cases u) (auto simp: resolve_scan_only resolve_empty_cache scan_bins_inv)
next
  case True
  show ?thesis
  proof (cases "getActiveId E (chain s)")
    case None
    with True assms show ?thesis by (simp add: resolve_raises)
  next
    case (Some A)
    with True assms show ?thesis
      by (cases "snd (cache_pass E pl w A s) = []")
         (simp_all add: resolve_cache_hit resolve_cache_miss scan_bins_inv cache_pass_inv)
  qed
qed

lemma get_deadline_world [simp]:
  "db (snd (get_deadline E s)) = db s" "chain (snd (get_deadline E s)) = chain s"
  by (simp_all add: get_deadline_def)

lemma send_tx_db [simp]: "db (snd (send_tx E a t g s)) = db s"
  by (simp add: send_tx_def)

lemma get_lp_balance_world [simp]:
  "db (snd (get_lp_balance E b w s)) = db s" "chain (snd (get_lp_balance E b w s)) = chain s"
  by (simp_all add: get_lp_balance_def)

lemma get_balance_world [simp]:
  "db (snd (get_balance E tk w s)) = db s" "chain (snd (get_balance E tk w s)) = chain s"
  by (simp_all add: get_balance_def)

lemma approve_token_db [simp]: "db (snd (approve_token E tk sp a k s)) = db s"
  by (simp add: approve_token_def Let_def case_prod_beta split: option.splits)

lemma approve_lp_tokens_db [simp]: "db (snd (approve_lp_tokens E sp k s)) = db s"
  by (simp add: approve_lp_tokens_def case_prod_beta split: option.splits)

subsection \<open>The writing operations keep the invariant\<close>

lemma update_found_inv_pair:
  "store_inv d \<Longrightarrow> get_position_by_bin d w b p = Some (pid, r) \<Longrightarrow>
   store_inv (snd (update_position d pid a act))"
  using update_found_inv [of d w b p "(pid, r)" a act] by simp

lemma update_found_inv_recorded:
  "store_inv d \<Longrightarrow> get_position_by_bin d w b p = Some (pid, r) \<Longrightarrow>
   store_inv (snd (update_position (snd (record_operation d op)) pid a act))"
  using update_found_inv [of "snd (record_operation d op)" w b p "(pid, r)" a act] by simp

lemma add_position_inv_recorded:
  "store_inv d \<Longrightarrow> get_position_by_bin d w b p = None \<Longrightarrow>
   store_inv (snd (add_position (snd (record_operation d op)) w b a tkx tky p))"
  using add_position_inv [of "snd (record_operation d op)" w b p a tkx tky] by simp

lemma add_liquidity_send_inv:
  "store_inv (db s) \<Longrightarrow>
   store_inv (db (snd (add_liquidity_send E pl acct b avax btc avax_wei btc_wei s)))"
  by (auto simp: add_liquidity_send_def Let_def case_prod_beta
      intro: update_found_inv_recorded add_position_inv_recorded split: option.splits)

lemma add_liquidity_inv:
  "store_inv (db s) \<Longrightarrow> store_inv (db (snd (add_liquidity E pl b avax btc k s)))"
  by (auto simp: add_liquidity_def Let_def add_liquidity_send_inv split: option.splits)

lemma remove_liquidity_send_inv:
  "store_inv (db s) \<Longrightarrow>
   store_inv (db (snd (remove_liquidity_send E pl acct b la k s)))"
  by (auto simp: remove_liquidity_send_def Let_def case_prod_beta deactivate_position_def
      intro: update_found_inv_recorded split: option.splits bool.splits)

lemma remove_liquidity_inv:
  "store_inv (db s) \<Longrightarrow> store_inv (db (snd (remove_liquidity E pl b la k s)))"
  by (auto simp: remove_liquidity_def case_prod_beta remove_liquidity_send_inv
      split: option.splits)

lemma deactivate_loop_inv:
  "store_inv d \<Longrightarrow> store_inv (deactivate_loop acct ps d)"
  by (induction ps arbitrary: d) (auto simp: deactivate_position_def intro: update_found_inv_pair split: option.splits)

lemma remove_all_liquidity_inv:
  "store_inv (db s) \<Longrightarrow> store_inv (db (snd (remove_all_liquidity E pl k sr s)))"
  by (auto simp: remove_all_liquidity_def Let_def case_prod_beta resolve_inv deactivate_loop_inv
      split: option.splits bool.splits)

lemma rebalance_liquidity_inv:
  "store_inv (db s) \<Longrightarrow> store_inv (db (snd (rebalance_liquidity E pl k A s)))"
  by (auto simp: rebalance_liquidity_def Let_def case_prod_beta remove_all_liquidity_inv
      add_liquidity_inv split: option.splits)

subsection \<open>The invariant, in the words of the data model\<close>

lemma store_inv_count_aux:
  "k \<notin> set (map row_key (filter active rows)) \<longleftrightarrow>
   filter (\<lambda>r. active r \<and> row_key r = k) rows = []"
  by (induction rows) auto

lemma store_inv_at_most_one:
  "store_inv d \<longleftrightarrow>
   (\<forall>k. length (filter (\<lambda>r. active r \<and> row_key r = k) (positions d)) \<le> 1)"
proof -
  have "distinct (map row_key (filter active rows)) \<longleftrightarrow>
        (\<forall>k. length (filter (\<lambda>r. active r \<and> row_key r = k) rows) \<le> 1)" for rows
  proof (induction rows)
    case Nil
    then show ?case by simp
  next
    case (Cons r rows)
    show ?case
    proof (cases "active r")
      case False
      with Cons show ?thesis by simp
    next
      case True
      have "(\<forall>k. length (filter (\<lambda>r. active r \<and> row_key r = k) (r # rows)) \<le> 1) \<longleftrightarrow>
            filter (\<lambda>r'. active r' \<and> row_key r' = row_key r) rows = [] \<and>
            (\<forall>k. length (filter (\<lambda>r. active r \<and> row_key r = k) rows) \<le> 1)"
        (is "?L \<longleftrightarrow> ?A \<and> ?B")
      proof
        assume L: ?L
        from L [rule_format, of "row_key r"] True have ?A by simp
        moreover have ?B
        proof
          fix k
          from L [rule_format, of k] show "length (filter (\<lambda>r. active r \<and> row_key r = k) rows) \<le> 1"
            by (simp split: if_splits)
        qed
        ultimately show "?A \<and> ?B" ..
      next
        assume AB: "?A \<and> ?B"
        show ?L
        proof
          fix k
          from AB have A: ?A and B: ?B by blast+
          from A B [rule_format, of k] True
          show "length (filter (\<lambda>r. active r \<and> row_key r = k) (r # rows)) \<le> 1"
            by (cases "row_key r = k") auto
        qed
      qed
      then have LAB: "?L \<longleftrightarrow> ?A \<and> ?B" .
      have "distinct (map row_key (filter active (r # rows))) \<longleftrightarrow>
            row_key r \<notin> set (map row_key (filter active rows)) \<and>
            distinct (map row_key (filter active rows))"
        using True by simp
      also have "\<dots> \<longleftrightarrow> ?A \<and> ?B"
        by (simp only: store_inv_count_aux Cons.IH)
      finally show ?thesis by (simp only: LAB)
    qed
  qed
  then show ?thesis by (simp add: store_inv_def)
qed

text \<open>
  C9.  Every operation keeps the store invariant: if no two active rows share a
  (wallet, pool, bin) key before position resolution, add-liquidity, remove-liquidity,
  remove-all or rebalance, then none do afterwards, whatever the chain answers.
\<close>

theorem operations_keep_store_inv:
  assumes "store_inv (db s)"
  shows "store_inv (db (snd (get_all_lp_balances E pl w sr u s)))
       \<and> store_inv (db (snd (add_liquidity E pl b avax btc k s)))
       \<and> store_inv (db (snd (remove_liquidity E pl b la k s)))
       \<and> store_inv (db (snd (remove_all_liquidity E pl k sr s)))
       \<and> store_inv (db (snd (rebalance_liquidity E pl k A s)))"
  using assms
  by (simp add: resolve_inv add_liquidity_inv remove_liquidity_inv remove_all_liquidity_inv
      rebalance_liquidity_inv)

theorem operations_keep_store_inv_witness:
  "store_inv (db (world_with [demo_row 100 1, demo_row 101 2]))
   \<and> store_inv (db (snd (get_all_lp_balances
        (static_chain (Some 100) demo_balances demo_reserves approvals_only) demo_pool ''0xWk'' 10
        True (world_with [demo_row 100 1, demo_row 101 2]))))
   \<and> store_inv (db (snd (rebalance_liquidity
        (static_chain (Some 100) demo_balances demo_reserves approvals_only) demo_pool ''k'' 100
        (world_with [demo_row 100 1, demo_row 101 2]))))"
proof -
  have h: "store_inv (db (world_with [demo_row 100 1, demo_row 101 2]))"
    by (simp add: store_inv_def demo_row_def row_key_def)
  from operations_keep_store_inv [OF h] h show ?thesis by blast
qed

section \<open>Properties of the rebalance executor\<close>

lemma db_step_sent: "sent (trace (fst (db_step E pl w A pos st))) = sent (trace (fst st))"
  by (simp add: db_step_def Let_def sent_append split: option.splits prod.splits)

lemma db_loop_sent: "sent (trace (fst (db_loop E pl w A ps st))) = sent (trace (fst st))"
  by (induction ps arbitrary: st) (simp_all add: db_step_sent)

lemma cache_pass_sent: "sent (trace (fst (cache_pass E pl w A s))) = sent (trace s)"
  by (simp add: cache_pass_def db_loop_sent sent_append)

lemma resolve_sent: "sent (trace (snd (get_all_lp_balances E pl w sr u s))) = sent (trace s)"
proof (cases "u \<and> active_bins (db s) w \<noteq> []")
  case False
  then show ?thesis
    by (cases u) (auto simp: resolve_scan_only resolve_empty_cache scan_bins_sent)
next
  case True
  show ?thesis
  proof (cases "getActiveId E (chain s)")
    case None
    with True show ?thesis by (simp add: resolve_raises sent_append)
  next
    case (Some A)
    with True show ?thesis
      by (cases "snd (cache_pass E pl w A s) = []")
         (simp_all add: resolve_cache_hit resolve_cache_miss scan_bins_sent cache_pass_sent)
  qed
qed

lemma resolve_operations:
  "operations (db (snd (get_all_lp_balances E pl w sr u s))) = operations (db s)"
proof (cases "u \<and> active_bins (db s) w \<noteq> []")
  case False
  then show ?thesis
    by (cases u) (auto simp: resolve_scan_only resolve_empty_cache)
next
  case True
  show ?thesis
  proof (cases "getActiveId E (chain s)")
    case None
    with True show ?thesis by (simp add: resolve_raises)
  next
    case (Some A)
    with True show ?thesis
      by (cases "snd (cache_pass E pl w A s) = []")
         (simp_all add: resolve_cache_hit resolve_cache_miss)
  qed
qed

lemma get_deadline_sent [simp]: "sent (trace (snd (get_deadline E s))) = sent (trace s)"
  by (simp add: get_deadline_def sent_append)

lemma send_tx_sent [simp]: "sent (trace (snd (send_tx E a t g s))) = sent (trace s) @ [t]"
  by (simp add: send_tx_def sent_append)

lemma approve_lp_tokens_adds:
  "filter is_add_liquidity (sent (trace (snd (approve_lp_tokens E sp k s)))) =
   filter is_add_liquidity (sent (trace s))"
  by (simp add: approve_lp_tokens_def case_prod_beta split: option.splits)

lemma remove_all_adds:
  "filter is_add_liquidity (sent (trace (snd (remove_all_liquidity E pl k sr s)))) =
   filter is_add_liquidity (sent (trace s))"
  by (simp add: remove_all_liquidity_def Let_def case_prod_beta resolve_sent
      approve_lp_tokens_adds split: option.splits bool.splits)

lemma remove_all_fails_store:
  "\<not> fst (remove_all_liquidity E pl k sr s) \<Longrightarrow>
   db (snd (remove_all_liquidity E pl k sr s)) =
     (case address_of_key E k of
        None \<Rightarrow> db s
      | Some acct \<Rightarrow> db (snd (get_all_lp_balances E pl acct sr True s)))"
  by (auto simp: remove_all_liquidity_def Let_def case_prod_beta
      split: option.splits bool.splits if_splits)

text \<open>
  C2, with the store as resolution leaves it.  If the phase-1 withdrawal of a rebalance fails (\<open>remove_all_liquidity\<close>
  answers false: no positions, a failed approval, a reverted or failed transaction, or any
  exception), the executor answers false, sends no add-liquidity transaction, records no
  operation, and leaves the position rows as the position resolution that opens phase 1
  left them; that resolution may itself have updated, deactivated or inserted rows.
\<close>

theorem failed_withdrawal_aborts:
  assumes "\<not> fst (remove_all_liquidity E pl k DEFAULT_BIN_SCAN_RANGE s)"
  shows "fst (rebalance_liquidity E pl k A s) = Some False
       \<and> filter is_add_liquidity (sent (trace (snd (rebalance_liquidity E pl k A s)))) =
           filter is_add_liquidity (sent (trace s))
       \<and> operations (db (snd (rebalance_liquidity E pl k A s))) = operations (db s)
       \<and> db (snd (rebalance_liquidity E pl k A s)) =
           (case address_of_key E k of
              None \<Rightarrow> db s
            | Some acct \<Rightarrow>
                db (snd (get_all_lp_balances E pl acct DEFAULT_BIN_SCAN_RANGE True s)))"
proof -
  have r: "rebalance_liquidity E pl k A s =
             (Some False, snd (remove_all_liquidity E pl k DEFAULT_BIN_SCAN_RANGE s))"
    using assms by (simp add: rebalance_liquidity_def Let_def)
  have d: "db (snd (remove_all_liquidity E pl k DEFAULT_BIN_SCAN_RANGE s)) =
           (case address_of_key E k of
              None \<Rightarrow> db s
            | Some acct \<Rightarrow>
                db (snd (get_all_lp_balances E pl acct DEFAULT_BIN_SCAN_RANGE True s)))"
    by (rule remove_all_fails_store [OF assms])
  have "operations (db (snd (remove_all_liquidity E pl k DEFAULT_BIN_SCAN_RANGE s))) =
          operations (db s)"
    unfolding d by (simp add: resolve_operations split: option.splits)
  with d show ?thesis by (simp add: r remove_all_adds)
qed


lemma approvals_only_world:
  "fst (approve_lp_tokens (static_chain a bal res approvals_only) sp ''k'' s)"
  "fst (get_deadline (static_chain a bal res approvals_only) s) = Some 1300"
  "fst (send_tx (static_chain a bal res approvals_only) acct
          (RemoveLiquidity tkx tky owner bins amounts mx my deadline) gas s) = Some (0, ''0xbb'')"
  by (simp_all add: approve_lp_tokens_def send_tx_def get_deadline_def case_prod_beta)

lemma demo_cache_hit:
  "fst (get_all_lp_balances (static_chain (Some 100) demo_balances demo_reserves approvals_only)
          demo_pool ''0xWk'' sr True (world_with [demo_row 100 1])) =
     Some [\<lparr>bin_id = 100, lp_balance = 5, token_x = WAVAX_ADDRESS, token_y = BTCB_ADDRESS,
            reserve_x = 7, reserve_y = 9, distance_from_active = 0\<rparr>]"
  by (simp add: resolve_result active_bins_def tracked_def demo_row_def live_position_def
      demo_balances_def demo_reserves_def demo_pool_def lp_five)

lemma demo_withdrawal_reverts:
  "\<not> fst (remove_all_liquidity (static_chain (Some 100) demo_balances demo_reserves approvals_only)
          demo_pool ''k'' DEFAULT_BIN_SCAN_RANGE (world_with [demo_row 100 1]))"
  by (simp add: remove_all_liquidity_def Let_def case_prod_beta demo_cache_hit
      approvals_only_world)

lemma demo_resolution_updates:
  "positions (db (snd (get_all_lp_balances
      (static_chain (Some 100) demo_balances demo_reserves approvals_only) demo_pool ''0xWk'' sr
      True (world_with [demo_row 100 1])))) ! 0 = demo_row 100 5"
proof -
  let ?E = "static_chain (Some 100) demo_balances demo_reserves approvals_only"
  have m: "(1, demo_row 100 1) \<in> set (get_active_positions (db (world_with [demo_row 100 1]))
             ''0xWk'' (Some POOL_ADDRESS))"
    by (simp add: demo_snapshot)
  have a: "getActiveId ?E (chain (world_with [demo_row 100 1])) = Some 100" by simp
  from resolve_row_after [OF m a, of demo_pool sr] show ?thesis
    by (simp add: checked_row_def demo_row_def demo_balances_def demo_reserves_def lp_five
        fsub_one_five tolerance_double)
qed

theorem failed_withdrawal_aborts_witness:
  "\<not> fst (remove_all_liquidity (static_chain (Some 100) demo_balances demo_reserves approvals_only)
          demo_pool ''k'' DEFAULT_BIN_SCAN_RANGE (world_with [demo_row 100 1]))
   \<and> fst (rebalance_liquidity (static_chain (Some 100) demo_balances demo_reserves approvals_only)
          demo_pool ''k'' 100 (world_with [demo_row 100 1])) = Some False
   \<and> filter is_add_liquidity (sent (trace (snd (rebalance_liquidity
          (static_chain (Some 100) demo_balances demo_reserves approvals_only)
          demo_pool ''k'' 100 (world_with [demo_row 100 1]))))) = []
   \<and> operations (db (snd (rebalance_liquidity
          (static_chain (Some 100) demo_balances demo_reserves approvals_only)
          demo_pool ''k'' 100 (world_with [demo_row 100 1])))) = []"
proof -
  let ?E = "static_chain (Some 100) demo_balances demo_reserves approvals_only"
  let ?W = "world_with [demo_row 100 1]"
  note c = failed_withdrawal_aborts [OF demo_withdrawal_reverts, of 100]
  from c have c1: "fst (rebalance_liquidity ?E demo_pool ''k'' 100 ?W) = Some False"
    by (rule conjunct1)
  from c have "filter is_add_liquidity (sent (trace (snd (rebalance_liquidity ?E demo_pool ''k''
                 100 ?W)))) = filter is_add_liquidity (sent (trace ?W))"
    by blast
  then have c2: "filter is_add_liquidity (sent (trace (snd (rebalance_liquidity ?E demo_pool
                   ''k'' 100 ?W)))) = []"
    by simp
  from c have "operations (db (snd (rebalance_liquidity ?E demo_pool ''k'' 100 ?W))) =
                 operations (db ?W)"
    by blast
  then have c3: "operations (db (snd (rebalance_liquidity ?E demo_pool ''k'' 100 ?W))) = []"
    by simp
  from demo_withdrawal_reverts c1 c2 c3 show ?thesis by blast
qed

text \<open>
  A withdrawal that reverts after the resolution found the stored amount 1 out of date:
  the executor answers false and the row now holds the live amount 5.
\<close>

theorem failed_withdrawal_changes_store_counterexample:
  "\<not> fst (remove_all_liquidity (static_chain (Some 100) demo_balances demo_reserves approvals_only)
          demo_pool ''k'' DEFAULT_BIN_SCAN_RANGE (world_with [demo_row 100 1]))
   \<and> fst (rebalance_liquidity (static_chain (Some 100) demo_balances demo_reserves approvals_only)
          demo_pool ''k'' 100 (world_with [demo_row 100 1])) = Some False
   \<and> positions (db (world_with [demo_row 100 1])) = [demo_row 100 1]
   \<and> positions (db (snd (rebalance_liquidity
          (static_chain (Some 100) demo_balances demo_reserves approvals_only)
          demo_pool ''k'' 100 (world_with [demo_row 100 1])))) ! 0 = demo_row 100 5
   \<and> db (snd (rebalance_liquidity
          (static_chain (Some 100) demo_balances demo_reserves approvals_only)
          demo_pool ''k'' 100 (world_with [demo_row 100 1]))) \<noteq> db (world_with [demo_row 100 1])"
proof -
  let ?E = "static_chain (Some 100) demo_balances demo_reserves approvals_only"
  let ?W = "world_with [demo_row 100 1]"
  have r: "rebalance_liquidity ?E demo_pool ''k'' 100 ?W =
             (Some False, snd (remove_all_liquidity ?E demo_pool ''k'' DEFAULT_BIN_SCAN_RANGE ?W))"
    using demo_withdrawal_reverts by (simp add: rebalance_liquidity_def Let_def)
  have d: "db (snd (remove_all_liquidity ?E demo_pool ''k'' DEFAULT_BIN_SCAN_RANGE ?W)) =
           db (snd (get_all_lp_balances ?E demo_pool ''0xWk'' DEFAULT_BIN_SCAN_RANGE True ?W))"
    using remove_all_fails_store [OF demo_withdrawal_reverts] by simp
  have p: "positions (db (snd (rebalance_liquidity ?E demo_pool ''k'' 100 ?W))) ! 0 = demo_row 100 5"
    by (simp add: r d demo_resolution_updates)
  have "demo_row 100 5 \<noteq> demo_row 100 1" by (simp add: demo_row_def)
  with p have "positions (db (snd (rebalance_liquidity ?E demo_pool ''k'' 100 ?W))) \<noteq>
                 positions (db ?W)"
    by auto
  then have "db (snd (rebalance_liquidity ?E demo_pool ''k'' 100 ?W)) \<noteq> db ?W" by auto
  with p r demo_withdrawal_reverts show ?thesis by simp
qed

text \<open>
  C4.  A run of the rebalance executor on a wallet whose store is empty, with the active
  bin at 100 and the wallet's liquidity in bin 150: the withdrawal scans with half-width
  \<open>DEFAULT_BIN_SCAN_RANGE = 10\<close>, so it checks bins 90 to 110 only, never bin 150, finds
  no position and aborts.
\<close>

theorem rebalance_scans_ten_bins:
  "DEFAULT_BIN_SCAN_RANGE = 10
   \<and> balance_checks (trace (snd (rebalance_liquidity
        (static_chain (Some 100) far_balances demo_reserves approvals_only) demo_pool ''k'' 100
        empty_world))) = map (Pair ''0xWk'') [90..110]
   \<and> (''0xWk'', 150) \<notin> set (balance_checks (trace (snd (rebalance_liquidity
        (static_chain (Some 100) far_balances demo_reserves approvals_only) demo_pool ''k'' 100
        empty_world))))
   \<and> fst (rebalance_liquidity
        (static_chain (Some 100) far_balances demo_reserves approvals_only) demo_pool ''k'' 100
        empty_world) = Some False"
proof -
  let ?E = "static_chain (Some 100) far_balances demo_reserves approvals_only"
  have live: "\<forall>b \<in> set [90..110]. live_position ?E demo_pool () ''0xWk'' 100 b = []"
    by (auto simp: live_position_def far_balances_def)
  have res: "get_all_lp_balances ?E demo_pool ''0xWk'' 10 True empty_world =
               scan_bins ?E demo_pool ''0xWk'' 10 True [] empty_world"
    by (simp add: resolve_empty_cache)
  have none: "fst (scan_bins ?E demo_pool ''0xWk'' 10 True [] empty_world) = Some []"
    using live by (simp add: scan_bins_result)
  have chk: "balance_checks (trace (snd (scan_bins ?E demo_pool ''0xWk'' 10 True [] empty_world))) =
               map (Pair ''0xWk'') [90..110]"
    by (simp add: scan_bins_checks)
  have ra: "remove_all_liquidity ?E demo_pool ''k'' DEFAULT_BIN_SCAN_RANGE empty_world =
              (False, snd (scan_bins ?E demo_pool ''0xWk'' 10 True [] empty_world))"
    by (simp add: remove_all_liquidity_def DEFAULT_BIN_SCAN_RANGE_def res none case_prod_beta)
  have rb: "rebalance_liquidity ?E demo_pool ''k'' 100 empty_world =
              (Some False, snd (scan_bins ?E demo_pool ''0xWk'' 10 True [] empty_world))"
    by (simp add: rebalance_liquidity_def ra)
  show ?thesis by (auto simp: rb chk DEFAULT_BIN_SCAN_RANGE_def)
qed

end
